theory Spec2Isabelle
  imports Main "HOL-Library.Word"
begin

unbundle bit_operations_syntax

chapter \<open>VibeVault (iOS): security and sync core\<close>

text \<open>
  A shallow embedding of the Swift sources under \<^verbatim>\<open>vibevault-ios/VibeVault\<close>:
  \<^verbatim>\<open>Bluetooth/BLEProtocol.swift\<close> (chunk framing, CRC32, reassembly),
  \<^verbatim>\<open>Services/CryptoService.swift\<close>, \<^verbatim>\<open>Services/AuthService.swift\<close>,
  \<^verbatim>\<open>Services/DatabaseService.swift\<close> with the records of \<^verbatim>\<open>Models\<close>,
  \<^verbatim>\<open>Views/Vault/VaultListView.swift\<close>, the sync orchestrator and the Bluetooth
  central.

  Swift's \<^verbatim>\<open>Data\<close> is a list of bytes. A Swift \<^verbatim>\<open>throw\<close> and a
  \<^verbatim>\<open>Result.failure\<close> are values on the left of a sum; a runtime trap (an integer
  conversion that does not fit, a range whose upper bound is below its lower bound) is a
  failure value of its own, so that no model function hides it.
\<close>

type_synonym byte = "8 word"
type_synonym Data = "byte list"

section \<open>BLEProtocol.swift\<close>

subsection \<open>CRC32\<close>

text \<open>
  \<^verbatim>\<open>crc = (crc & 1 != 0) ? (0xEDB88320 ^ (crc >> 1)) : (crc >> 1)\<close>, eight times,
  starting from \<^verbatim>\<open>UInt32(i)\<close>, for \<^verbatim>\<open>i\<close> in \<^verbatim>\<open>0..<256\<close>.
\<close>

definition crc_shift :: "32 word \<Rightarrow> 32 word" where
  "crc_shift crc = (if crc AND 1 \<noteq> 0 then 0xEDB88320 XOR drop_bit 1 crc else drop_bit 1 crc)"

definition crc_table_entry :: "nat \<Rightarrow> 32 word" where
  "crc_table_entry i = (crc_shift ^^ 8) (of_nat i)"

definition CRC32_table :: "32 word list" where
  "CRC32_table = map crc_table_entry [0..<256]"

text \<open>
  One round of the loop in \<^verbatim>\<open>CRC32.compute\<close>:
  \<^verbatim>\<open>let index = Int((crc ^ UInt32(byte)) & 0xFF); crc = table[index] ^ (crc >> 8)\<close>.
  The index is below 256, so the table read is always in range.
\<close>

definition crc_update :: "32 word \<Rightarrow> byte \<Rightarrow> 32 word" where
  "crc_update crc b =
     (let index = unat ((crc XOR ucast b) AND 0xFF)
      in CRC32_table ! index XOR drop_bit 8 crc)"

definition CRC32_compute :: "Data \<Rightarrow> 32 word" where
  "CRC32_compute data = foldl crc_update 0xFFFFFFFF data XOR 0xFFFFFFFF"

subsection \<open>Failures\<close>

text \<open>
  The \<^verbatim>\<open>Result<_, String>\<close> failures of the file, one constructor per message, and
  \<open>RuntimeTrap\<close> for the places where Swift stops the process: \<^verbatim>\<open>UInt16(x)\<close> with
  \<^verbatim>\<open>x\<close> outside \<open>0..65535\<close> and \<^verbatim>\<open>subdata(in: a..<b)\<close> with \<^verbatim>\<open>b < a\<close> or
  \<^verbatim>\<open>b\<close> beyond the end.
\<close>

datatype failure =
    ChunkTooSmall
  | CRC32Mismatch "16 word"
  | TotalMismatch
  | IndexOutOfRange
  | Incomplete nat nat
  | MissingChunk nat
  | RuntimeTrap

definition UInt16 :: "nat \<Rightarrow> failure + 16 word" where
  "UInt16 n = (if n < 65536 then Inr (of_nat n) else Inl RuntimeTrap)"

definition subdata :: "Data \<Rightarrow> nat \<Rightarrow> nat \<Rightarrow> failure + Data" where
  "subdata bytes lo hi =
     (if lo \<le> hi \<and> hi \<le> length bytes then Inr (take (hi - lo) (drop lo bytes))
      else Inl RuntimeTrap)"

subsection \<open>Chunk\<close>

definition maxChunkData :: nat where
  "maxChunkData = 493"

record Chunk =
  chunk_index :: "16 word"
  chunk_total :: "16 word"
  chunk_crc32 :: "32 word"
  chunk_data :: Data

text \<open>Little-endian byte images of \<^verbatim>\<open>UInt16\<close> and \<^verbatim>\<open>UInt32\<close>, and their loads.\<close>

definition le16 :: "16 word \<Rightarrow> Data" where
  "le16 w = [ucast w, ucast (drop_bit 8 w)]"

definition le32 :: "32 word \<Rightarrow> Data" where
  "le32 w = [ucast w, ucast (drop_bit 8 w), ucast (drop_bit 16 w), ucast (drop_bit 24 w)]"

definition load16 :: "Data \<Rightarrow> 16 word" where
  "load16 bs = ucast (bs ! 0) OR push_bit 8 (ucast (bs ! 1))"

definition load32 :: "Data \<Rightarrow> 32 word" where
  "load32 bs = ucast (bs ! 0) OR push_bit 8 (ucast (bs ! 1))
                 OR push_bit 16 (ucast (bs ! 2)) OR push_bit 24 (ucast (bs ! 3))"

definition toBytes :: "Chunk \<Rightarrow> Data" where
  "toBytes c = le16 (chunk_index c) @ le16 (chunk_total c) @ le32 (chunk_crc32 c) @ chunk_data c"

text \<open>
  \<^verbatim>\<open>Chunk.fromBytes\<close>: the length guard comes first, so the four \<^verbatim>\<open>subdata\<close> calls
  are in range; the CRC of the payload is compared with the stored one.
\<close>

definition fromBytes :: "Data \<Rightarrow> failure + Chunk" where
  "fromBytes bytes =
     (if \<not> 8 \<le> length bytes then Inl ChunkTooSmall
      else
        let index = load16 (take 2 bytes);
            total16 = load16 (take 2 (drop 2 bytes));
            crc32Stored = load32 (take 4 (drop 4 bytes));
            data = drop 8 bytes;
            computed = CRC32_compute data
        in if \<not> computed = crc32Stored then Inl (CRC32Mismatch index)
           else Inr \<lparr>chunk_index = index, chunk_total = total16,
                     chunk_crc32 = crc32Stored, chunk_data = data\<rparr>)"

subsection \<open>Chunking\<close>

text \<open>The closure of \<^verbatim>\<open>chunkData\<close>, for one \<^verbatim>\<open>i\<close>.\<close>

definition chunk_at :: "Data \<Rightarrow> 16 word \<Rightarrow> nat \<Rightarrow> failure + Chunk" where
  "chunk_at data total16 i =
     (let start = i * maxChunkData;
          end = min (start + maxChunkData) (length data)
      in case subdata data start end of
           Inl e \<Rightarrow> Inl e
         | Inr chunkData \<Rightarrow>
             (let crc = CRC32_compute chunkData
              in case UInt16 i of
                   Inl e \<Rightarrow> Inl e
                 | Inr idx \<Rightarrow> Inr \<lparr>chunk_index = idx, chunk_total = total16,
                                   chunk_crc32 = crc, chunk_data = chunkData\<rparr>))"

text \<open>\<^verbatim>\<open>map\<close> over a closure that can trap: the first trap ends the run.\<close>

fun map_trap :: "('a \<Rightarrow> failure + 'b) \<Rightarrow> 'a list \<Rightarrow> failure + 'b list" where
  "map_trap f [] = Inr []"
| "map_trap f (x # xs) =
     (case f x of
        Inl e \<Rightarrow> Inl e
      | Inr y \<Rightarrow> (case map_trap f xs of Inl e \<Rightarrow> Inl e | Inr ys \<Rightarrow> Inr (y # ys)))"

definition chunkData :: "Data \<Rightarrow> failure + Chunk list" where
  "chunkData data =
     (let chunkCount = max 1 ((length data + maxChunkData - 1) div maxChunkData)
      in case UInt16 chunkCount of
           Inl e \<Rightarrow> Inl e
         | Inr total16 \<Rightarrow> map_trap (chunk_at data total16) [0..<chunkCount])"

subsection \<open>Reassembly\<close>

record ChunkReassembler =
  rsm_total :: nat
  rsm_chunks :: "Data option list"
  rsm_receivedCount :: nat

definition init :: "nat \<Rightarrow> ChunkReassembler" where
  "init n = \<lparr>rsm_total = n, rsm_chunks = replicate n None, rsm_receivedCount = 0\<rparr>"

text \<open>
  \<^verbatim>\<open>addChunk\<close> returns the flag "all chunks received" and the updated reassembler.
  \<^verbatim>\<open>UInt16(total)\<close> is evaluated by the first guard.
\<close>

definition addChunk :: "ChunkReassembler \<Rightarrow> Chunk \<Rightarrow> failure + (bool \<times> ChunkReassembler)" where
  "addChunk r chunk =
     (case UInt16 (rsm_total r) of
        Inl e \<Rightarrow> Inl e
      | Inr t \<Rightarrow>
          if \<not> chunk_total chunk = t then Inl TotalMismatch
          else if \<not> unat (chunk_index chunk) < rsm_total r then Inl IndexOutOfRange
          else
            let idx = unat (chunk_index chunk);
                rc = (if rsm_chunks r ! idx = None then rsm_receivedCount r + 1 else rsm_receivedCount r);
                r' = r\<lparr>rsm_chunks := (rsm_chunks r)[idx := Some (chunk_data chunk)], rsm_receivedCount := rc\<rparr>
            in Inr (rsm_receivedCount r' = rsm_total r', r'))"

text \<open>The loop of \<^verbatim>\<open>reassemble\<close> over \<^verbatim>\<open>chunks.enumerated()\<close>.\<close>

fun reassemble_loop :: "nat \<Rightarrow> Data option list \<Rightarrow> Data \<Rightarrow> failure + Data" where
  "reassemble_loop i [] result = Inr result"
| "reassemble_loop i (None # cs) result = Inl (MissingChunk i)"
| "reassemble_loop i (Some d # cs) result = reassemble_loop (Suc i) cs (result @ d)"

definition reassemble :: "ChunkReassembler \<Rightarrow> failure + Data" where
  "reassemble r =
     (if \<not> rsm_receivedCount r = rsm_total r then Inl (Incomplete (rsm_receivedCount r) (rsm_total r))
      else reassemble_loop 0 (rsm_chunks r) [])"

text \<open>
  The receiving side of a transfer: every chunk of a message is handed to
  \<^verbatim>\<open>addChunk\<close> in turn; the first failure aborts the message.
\<close>

fun addChunks :: "ChunkReassembler \<Rightarrow> Chunk list \<Rightarrow> failure + ChunkReassembler" where
  "addChunks r [] = Inr r"
| "addChunks r (c # cs) =
     (case addChunk r c of Inl e \<Rightarrow> Inl e | Inr (done, r') \<Rightarrow> addChunks r' cs)"

subsection \<open>Auxiliary notions for the chunking proofs\<close>

text \<open>
  The number of chunks \<^verbatim>\<open>chunkData\<close> computes for \<open>n\<close> bytes, the payload of chunk
  \<open>i\<close>, and the chunk value built for index \<open>i\<close> when \<open>k\<close> chunks are produced.
\<close>

definition chunkCount :: "nat \<Rightarrow> nat" where
  "chunkCount n = max 1 ((n + maxChunkData - 1) div maxChunkData)"

definition piece :: "Data \<Rightarrow> nat \<Rightarrow> Data" where
  "piece data i = take maxChunkData (drop (i * maxChunkData) data)"

definition mk_chunk :: "Data \<Rightarrow> nat \<Rightarrow> nat \<Rightarrow> Chunk" where
  "mk_chunk data k i =
     \<lparr>chunk_index = of_nat i, chunk_total = of_nat k,
      chunk_crc32 = CRC32_compute (piece data i), chunk_data = piece data i\<rparr>"

section \<open>Thrown errors\<close>

text \<open>
  Everything the Swift services can \<^verbatim>\<open>throw\<close>: the cases of
  \<^verbatim>\<open>AuthService.AuthError\<close> and the errors of the libraries (CryptoKit, Argon2Swift,
  GRDB). Of GRDB: a violated constraint, an SQL statement that names a column the table
  does not have (\<open>NoSuchColumn\<close>), a fetched row that lacks the column a record's
  property is decoded from (\<open>RowDecodingError\<close>), and an update that matches no row.
  There is no case for a rate limit or for an existing registration: the sources declare
  none.
\<close>

datatype AuthError = invalidCredentials | invalidEncryptionSalt | biometricsFailed | noStoredKey

datatype CryptoKitError = incorrectKeySize | incorrectParameterSize | authenticationFailure

datatype thrown =
    Auth AuthError
  | CryptoKit CryptoKitError
  | Argon2Failure
  | DatabaseConstraint
  | NoSuchColumn string
  | RowDecodingError string
  | RecordNotFound

section \<open>CryptoService.swift\<close>

subsection \<open>Argon2id\<close>

definition memoryCost :: "32 word" where
  "memoryCost = 19456"

definition timeCost :: "32 word" where
  "timeCost = 2"

definition parallelism :: "32 word" where
  "parallelism = 1"

definition hashLength :: int where
  "hashLength = 32"

datatype Argon2Type = Argon2_i | Argon2_d | Argon2_id

datatype Argon2Version = V10 | V13

text \<open>The labelled arguments of \<^verbatim>\<open>Argon2Swift.hashPasswordBytes\<close>.\<close>

record Argon2Args =
  a2_password :: Data
  a2_salt :: Data
  a2_length :: int
  a2_type :: Argon2Type
  a2_version :: Argon2Version
  a2_iterations :: int
  a2_memory :: int
  a2_parallelism :: int

text \<open>
  The Argon2Swift package is not part of the repository. Its entry points are parameters of
  the model: whatever they compute, the services below call them as written here.
  \<open>'r\<close> is the library's result type (\<^verbatim>\<open>Argon2SwiftResult\<close>).
\<close>

record 'r Argon2Swift =
  hashPasswordBytes :: "Argon2Args \<Rightarrow> thrown + 'r"
  encodedString :: "'r \<Rightarrow> string"
  hashData :: "'r \<Rightarrow> Data"
  verifyHashString :: "string \<Rightarrow> string \<Rightarrow> Argon2Type \<Rightarrow> thrown + bool"

text \<open>\<^verbatim>\<open>s.data(using: .utf8)!\<close>: a \<open>string\<close> is the list of its UTF-8 code units.\<close>

definition utf8 :: "string \<Rightarrow> Data" where
  "utf8 s = map (\<lambda>c. of_nat (of_char c)) s"

definition hashPassword :: "'r Argon2Swift \<Rightarrow> string \<Rightarrow> Data \<Rightarrow> thrown + string" where
  "hashPassword lib password salt =
     (case hashPasswordBytes lib
             \<lparr>a2_password = utf8 password, a2_salt = salt, a2_length = hashLength,
              a2_type = Argon2_id, a2_version = V13, a2_iterations = uint timeCost,
              a2_memory = uint memoryCost, a2_parallelism = uint parallelism\<rparr> of
        Inl e \<Rightarrow> Inl e
      | Inr result \<Rightarrow> Inr (encodedString lib result))"

definition verifyPassword :: "'r Argon2Swift \<Rightarrow> string \<Rightarrow> string \<Rightarrow> thrown + bool" where
  "verifyPassword lib password hash = verifyHashString lib password hash Argon2_id"

text \<open>The returned \<^verbatim>\<open>SymmetricKey\<close> is the list of its bytes.\<close>

definition deriveEncryptionKey :: "'r Argon2Swift \<Rightarrow> string \<Rightarrow> Data \<Rightarrow> thrown + Data" where
  "deriveEncryptionKey lib password encryptionSalt =
     (case hashPasswordBytes lib
             \<lparr>a2_password = utf8 password, a2_salt = encryptionSalt, a2_length = hashLength,
              a2_type = Argon2_id, a2_version = V13, a2_iterations = uint timeCost,
              a2_memory = uint memoryCost, a2_parallelism = uint parallelism\<rparr> of
        Inl e \<Rightarrow> Inl e
      | Inr result \<Rightarrow> Inr (hashData lib result))"

subsection \<open>AES-256-GCM\<close>

text \<open>
  CryptoKit's \<^verbatim>\<open>AES.GCM\<close> is a parameter as well. A sealed box is the triple of its
  nonce, ciphertext and tag. \<open>gcm_seal\<close> takes plaintext, key and nonce; \<open>gcm_open\<close> takes
  the box and the key.
\<close>

type_synonym SealedBox = "Data \<times> Data \<times> Data"

record AES_GCM =
  Nonce_data :: "Data \<Rightarrow> thrown + Data"
  gcm_seal :: "Data \<Rightarrow> Data \<Rightarrow> Data \<Rightarrow> thrown + SealedBox"
  SealedBox_init :: "Data \<Rightarrow> Data \<Rightarrow> Data \<Rightarrow> thrown + SealedBox"
  gcm_open :: "SealedBox \<Rightarrow> Data \<Rightarrow> thrown + Data"

text \<open>
  \<^verbatim>\<open>encrypt\<close>: the nonce drawn by \<^verbatim>\<open>AES.GCM.Nonce()\<close> is the argument \<open>fresh\<close>. The
  result is \<^verbatim>\<open>(sealed.ciphertext + sealed.tag, Data(nonce))\<close>.
\<close>

definition encrypt :: "AES_GCM \<Rightarrow> Data \<Rightarrow> Data \<Rightarrow> Data \<Rightarrow> thrown + (Data \<times> Data)" where
  "encrypt gcm fresh plaintext key =
     (let nonce = fresh
      in case gcm_seal gcm plaintext key nonce of
           Inl e \<Rightarrow> Inl e
         | Inr (_, ciphertext, tag) \<Rightarrow>
             (let ciphertextWithTag = ciphertext @ tag
              in Inr (ciphertextWithTag, nonce)))"

text \<open>\<^verbatim>\<open>dropLast(16)\<close> and \<^verbatim>\<open>suffix(16)\<close> on a buffer that may be shorter than 16.\<close>

definition dropLast :: "nat \<Rightarrow> Data \<Rightarrow> Data" where
  "dropLast k xs = take (length xs - k) xs"

definition suffix_bytes :: "nat \<Rightarrow> Data \<Rightarrow> Data" where
  "suffix_bytes k xs = drop (length xs - k) xs"

definition decrypt :: "AES_GCM \<Rightarrow> Data \<Rightarrow> Data \<Rightarrow> Data \<Rightarrow> thrown + Data" where
  "decrypt gcm ciphertext nonce key =
     (case Nonce_data gcm nonce of
        Inl e \<Rightarrow> Inl e
      | Inr gcmNonce \<Rightarrow>
          (case SealedBox_init gcm gcmNonce (dropLast 16 ciphertext) (suffix_bytes 16 ciphertext) of
             Inl e \<Rightarrow> Inl e
           | Inr sealed \<Rightarrow> gcm_open gcm sealed key))"

text \<open>
  Flipping bit \<open>j\<close> (counted from the least significant bit of the first byte) of a buffer,
  and the relation "differs in exactly one bit".
\<close>

definition flip_one_bit :: "nat \<Rightarrow> Data \<Rightarrow> Data" where
  "flip_one_bit j xs = xs[j div 8 := xs ! (j div 8) XOR push_bit (j mod 8) 1]"

definition one_bit_apart :: "Data \<Rightarrow> Data \<Rightarrow> bool" where
  "one_bit_apart xs ys \<longleftrightarrow> (\<exists>j < 8 * length xs. ys = flip_one_bit j xs)"

text \<open>
  What the model expects of \<^verbatim>\<open>AES.GCM\<close> for 256-bit keys and 96-bit nonces:
  sealing succeeds with a 16-byte tag under the nonce given and opening the sealed box
  returns the plaintext; \<^verbatim>\<open>Nonce(data:)\<close> accepts 12 bytes and
  \<^verbatim>\<open>SealedBox(nonce:ciphertext:tag:)\<close> accepts a 16-byte tag; and opening a box that is
  one bit away from a sealed one, in the nonce, the ciphertext or the tag, throws
  \<^verbatim>\<open>authenticationFailure\<close>.
\<close>

definition AES_GCM_contract :: "AES_GCM \<Rightarrow> bool" where
  "AES_GCM_contract gcm \<longleftrightarrow>
     (\<forall>plaintext key nonce. length key = 32 \<and> length nonce = 12 \<longrightarrow>
        (\<exists>ciphertext tag.
           gcm_seal gcm plaintext key nonce = Inr (nonce, ciphertext, tag)
           \<and> length tag = 16
           \<and> gcm_open gcm (nonce, ciphertext, tag) key = Inr plaintext))
     \<and> (\<forall>nonce. length nonce = 12 \<longrightarrow> Nonce_data gcm nonce = Inr nonce)
     \<and> (\<forall>nonce ciphertext tag. length nonce = 12 \<and> length tag = 16 \<longrightarrow>
          SealedBox_init gcm nonce ciphertext tag = Inr (nonce, ciphertext, tag))
     \<and> (\<forall>plaintext key nonce ciphertext tag nonce' ciphertext' tag'.
          gcm_seal gcm plaintext key nonce = Inr (nonce, ciphertext, tag)
          \<and> (one_bit_apart nonce nonce' \<and> ciphertext' = ciphertext \<and> tag' = tag
             \<or> nonce' = nonce \<and> one_bit_apart ciphertext ciphertext' \<and> tag' = tag
             \<or> nonce' = nonce \<and> ciphertext' = ciphertext \<and> one_bit_apart tag tag')
          \<longrightarrow> gcm_open gcm (nonce', ciphertext', tag') key = Inl (CryptoKit authenticationFailure))"

subsection \<open>ECDH and the pairing HMAC\<close>

text \<open>
  CryptoKit's \<^verbatim>\<open>P256.KeyAgreement\<close>, HKDF and HMAC, as parameters; \<open>'sk\<close> and \<open>'pk\<close>
  are the private and public key types.
\<close>

record ('sk, 'pk) P256_KeyAgreement =
  PublicKey_compactRepresentation :: "Data \<Rightarrow> thrown + 'pk"
  publicKey :: "'sk \<Rightarrow> 'pk"
  compressedRepresentation :: "'pk \<Rightarrow> Data"
  sharedSecretFromKeyAgreement :: "'sk \<Rightarrow> 'pk \<Rightarrow> thrown + Data"
  hkdfDerivedSymmetricKey :: "Data \<Rightarrow> Data \<Rightarrow> Data \<Rightarrow> nat \<Rightarrow> Data"
  HMAC_SHA256 :: "Data \<Rightarrow> Data \<Rightarrow> Data"

text \<open>
  What the model expects of \<^verbatim>\<open>PublicKey(compactRepresentation:)\<close>: the compact form of a
  P-256 public key is its 32-byte x-coordinate, and input of any other length is rejected
  with \<^verbatim>\<open>incorrectParameterSize\<close>.
\<close>

definition compact_form_is_32_bytes :: "('sk, 'pk) P256_KeyAgreement \<Rightarrow> bool" where
  "compact_form_is_32_bytes ck \<longleftrightarrow>
     (\<forall>d. length d \<noteq> 32
        \<longrightarrow> PublicKey_compactRepresentation ck d = Inl (CryptoKit incorrectParameterSize))"

definition deriveSessionKey :: "('sk, 'pk) P256_KeyAgreement \<Rightarrow> 'sk \<Rightarrow> 'pk \<Rightarrow> thrown + Data" where
  "deriveSessionKey ck privateKey peerPublicKey =
     (case sharedSecretFromKeyAgreement ck privateKey peerPublicKey of
        Inl e \<Rightarrow> Inl e
      | Inr sharedSecret \<Rightarrow>
          Inr (hkdfDerivedSymmetricKey ck sharedSecret [] (utf8 ''vibevault-sync-v1'') 32))"

text \<open>\<open>HMAC_SHA256 ck message key\<close> is \<^verbatim>\<open>HMAC<SHA256>.authenticationCode(for:using:)\<close>.\<close>

definition computePairingHMAC :: "('sk, 'pk) P256_KeyAgreement \<Rightarrow> string \<Rightarrow> Data \<Rightarrow> Data" where
  "computePairingHMAC ck code publicKeyBytes =
     (let key = utf8 code in HMAC_SHA256 ck publicKeyBytes key)"

text \<open>
  A stand-in for \<^verbatim>\<open>AES.GCM\<close> that meets the contract, used only to show that the
  contract can be met: the ciphertext is the plaintext and the tag is a one-byte checksum
  (the exclusive or of all key, nonce and ciphertext bytes) padded to 16 bytes.
\<close>

definition xor_fold :: "Data \<Rightarrow> byte" where
  "xor_fold xs = foldr (XOR) xs 0"

definition checksum_tag :: "Data \<Rightarrow> Data \<Rightarrow> Data \<Rightarrow> Data" where
  "checksum_tag key nonce ciphertext = xor_fold (key @ nonce @ ciphertext) # replicate 15 0"

definition checksum_gcm :: AES_GCM where
  "checksum_gcm =
     \<lparr>Nonce_data = (\<lambda>nonce. if length nonce = 12 then Inr nonce
                              else Inl (CryptoKit incorrectParameterSize)),
      gcm_seal = (\<lambda>plaintext key nonce. Inr (nonce, plaintext, checksum_tag key nonce plaintext)),
      SealedBox_init = (\<lambda>nonce ciphertext tag.
                          if length tag = 16 then Inr (nonce, ciphertext, tag)
                          else Inl (CryptoKit incorrectParameterSize)),
      gcm_open = (\<lambda>(nonce, ciphertext, tag) key.
                    if tag = checksum_tag key nonce ciphertext then Inr ciphertext
                    else Inl (CryptoKit authenticationFailure))\<rparr>"

section \<open>Models\<close>

text \<open>
  \<^verbatim>\<open>User.swift\<close> and \<^verbatim>\<open>VaultEntry.swift\<close>. \<^verbatim>\<open>Int64\<close> columns are integers;
  \<^verbatim>\<open>uuid\<close> is the site-name label, \<^verbatim>\<open>entryUuid\<close> the sync identity. A value of
  either record type also stands for a stored row of its table, field by field in the
  order of the columns.
\<close>

record User =
  u_username :: string
  u_passwordHash :: string
  u_salt :: string
  u_encryptionSalt :: string

record VaultEntry =
  ve_id :: "int option"
  ve_uuid :: string
  ve_dataBlob :: Data
  ve_nonce :: Data
  ve_profileId :: int
  ve_entryUuid :: "string option"
  ve_createdAt :: string
  ve_updatedAt :: string
  ve_deletedAt :: "string option"
  ve_syncVersion :: int

text \<open>
  Both structs are \<^verbatim>\<open>Codable, FetchableRecord, PersistableRecord\<close> and declare no
  \<^verbatim>\<open>CodingKeys\<close> (their nested \<^verbatim>\<open>enum Columns\<close> is not used by the coders), so GRDB
  writes and reads them under the names of their properties. The required keys are the
  properties that are not optional: decoding throws when the row has no column for one
  of them, and reads \<^verbatim>\<open>nil\<close> for an optional property without a column.
\<close>

definition User_codingKeys :: "string list" where
  "User_codingKeys = [''username'', ''passwordHash'', ''salt'', ''encryptionSalt'']"


definition VaultEntry_requiredKeys :: "string list" where
  "VaultEntry_requiredKeys =
     [''uuid'', ''dataBlob'', ''nonce'', ''profileId'', ''createdAt'', ''updatedAt'',
      ''syncVersion'']"

record VaultEntryData =
  d_username :: "string option"
  d_password :: "string option"
  d_totpSecret :: "string option"
  d_notes :: "string option"

text \<open>\<^verbatim>\<open>VaultEntryData()\<close>: every field \<^verbatim>\<open>nil\<close>.\<close>

definition VaultEntryData_init :: VaultEntryData where
  "VaultEntryData_init =
     \<lparr>d_username = None, d_password = None, d_totpSecret = None, d_notes = None\<rparr>"

record DisplayEntry =
  de_entry :: VaultEntry
  de_data :: VaultEntryData

text \<open>
  Foundation and the standard library, as parameters: Base64 encoding, the JSON decoder
  for \<^verbatim>\<open>VaultEntryData\<close> (\<open>None\<close> where \<^verbatim>\<open>try?\<close> gives \<^verbatim>\<open>nil\<close>) and
  \<^verbatim>\<open>UInt8(_, radix: 16)\<close>.
\<close>

record Foundation =
  base64EncodedString :: "Data \<Rightarrow> string"
  JSONDecoder_decode :: "Data \<Rightarrow> VaultEntryData option"
  UInt8_radix16 :: "string \<Rightarrow> byte option"

section \<open>DatabaseService.swift\<close>

text \<open>
  The tables \<^verbatim>\<open>users\<close> and \<^verbatim>\<open>vault_entries\<close> in row order, with the columns
  \<^verbatim>\<open>runMigrations\<close> creates. Every function that writes returns its result together
  with the database it leaves behind: a statement that throws writes nothing. Integer
  columns are unbounded integers: counting versions does not reach the end of SQLite's
  64-bit range. Faults of the storage medium are outside the model.
\<close>

definition users_columns :: "string list" where
  "users_columns = [''username'', ''password_hash'', ''salt'', ''encryption_salt'']"

definition vault_entries_columns :: "string list" where
  "vault_entries_columns =
     [''id'', ''uuid'', ''data_blob'', ''nonce'', ''profile_id'', ''entry_uuid'', ''created_at'',
      ''updated_at'', ''deleted_at'', ''sync_version'']"

record Database =
  users :: "User list"
  vault_entries :: "VaultEntry list"

text \<open>The keys of a record that are not columns of its table, in the order of the keys.\<close>

definition missing_columns :: "string list \<Rightarrow> string list \<Rightarrow> string list" where
  "missing_columns keys columns = filter (\<lambda>k. k \<notin> set columns) keys"

text \<open>
  Decoding a fetched row (\<^verbatim>\<open>init(row:)\<close>, derived from \<^verbatim>\<open>Decodable\<close>): a required
  key without a column throws; an optional property is read only when its key is a
  column.
\<close>

definition decode_User :: "User \<Rightarrow> thrown + User" where
  "decode_User row =
     (case missing_columns User_codingKeys users_columns of
        k # _ \<Rightarrow> Inl (RowDecodingError k)
      | [] \<Rightarrow> Inr row)"

definition decode_VaultEntry :: "VaultEntry \<Rightarrow> thrown + VaultEntry" where
  "decode_VaultEntry row =
     (case missing_columns VaultEntry_requiredKeys vault_entries_columns of
        k # _ \<Rightarrow> Inl (RowDecodingError k)
      | [] \<Rightarrow>
          Inr (row\<lparr>ve_id := (if ''id'' \<in> set vault_entries_columns then ve_id row else None),
                   ve_entryUuid := (if ''entryUuid'' \<in> set vault_entries_columns
                                    then ve_entryUuid row else None),
                   ve_deletedAt := (if ''deletedAt'' \<in> set vault_entries_columns
                                    then ve_deletedAt row else None)\<rparr>))"

text \<open>\<^verbatim>\<open>fetchAll\<close>: the rows are decoded in order; the first throw ends the fetch.\<close>

fun fetchAll :: "VaultEntry list \<Rightarrow> thrown + VaultEntry list" where
  "fetchAll [] = Inr []"
| "fetchAll (row # rows) =
     (case decode_VaultEntry row of
        Inl e \<Rightarrow> Inl e
      | Inr entry \<Rightarrow> (case fetchAll rows of Inl e \<Rightarrow> Inl e | Inr entries \<Rightarrow> Inr (entry # entries)))"

text \<open>\<^verbatim>\<open>SELECT COUNT(*) FROM users\<close>: plain SQL, no record is decoded.\<close>

definition isRegistered :: "Database \<Rightarrow> bool" where
  "isRegistered db = (let count = length (users db) in count > 0)"

text \<open>
  \<^verbatim>\<open>User.filter(Column("username") == username).fetchOne(db)\<close>: the filter names a
  column of the table; the row it finds, if any, is then decoded.
\<close>

definition getUser :: "Database \<Rightarrow> string \<Rightarrow> thrown + User option" where
  "getUser db username =
     (case find (\<lambda>u. u_username u = username) (users db) of
        None \<Rightarrow> Inr None
      | Some row \<Rightarrow> (case decode_User row of Inl e \<Rightarrow> Inl e | Inr user \<Rightarrow> Inr (Some user)))"


text \<open>
  \<^verbatim>\<open>VaultEntry.filter(profile_id == profileId).filter(deleted_at == nil).fetchAll(db)\<close>:
  both filters name columns of the table; the rows found are decoded.
\<close>

definition getActiveEntries :: "Database \<Rightarrow> int \<Rightarrow> thrown + VaultEntry list" where
  "getActiveEntries db profileId =
     fetchAll (filter (\<lambda>e. ve_profileId e = profileId \<and> ve_deletedAt e = None) (vault_entries db))"






section \<open>AuthService.swift\<close>

record AuthService =
  auth_isRegistered :: bool
  auth_isAuthenticated :: bool
  auth_activeProfileId :: int
  auth_encryptionKey :: "Data option"




text \<open>
  \<^verbatim>\<open>Data(hexString:)\<close>: \<^verbatim>\<open>count / 2\<close> rounds, each parsing two characters; \<^verbatim>\<open>nil\<close> at
  the first pair that does not parse.
\<close>

fun hexString_loop :: "Foundation \<Rightarrow> nat \<Rightarrow> string \<Rightarrow> Data \<Rightarrow> Data option" where
  "hexString_loop fnd 0 rest data = Some data"
| "hexString_loop fnd (Suc n) rest data =
     (case UInt8_radix16 fnd (take 2 rest) of
        None \<Rightarrow> None
      | Some byte \<Rightarrow> hexString_loop fnd n (drop 2 rest) (data @ [byte]))"

definition Data_hexString :: "Foundation \<Rightarrow> string \<Rightarrow> Data option" where
  "Data_hexString fnd hexString = (let len = length hexString div 2 in hexString_loop fnd len hexString [])"

text \<open>
  \<^verbatim>\<open>login\<close>. The guards are taken in the order of the source; a throw of
  \<^verbatim>\<open>db.getUser\<close> leaves the function as it is. The copy of the key offered to the
  Keychain (\<^verbatim>\<open>try?\<close>, result ignored) does not touch this state.
\<close>

definition login ::
  "'r Argon2Swift \<Rightarrow> Foundation \<Rightarrow> Database \<Rightarrow> AuthService \<Rightarrow> string \<Rightarrow> string
     \<Rightarrow> thrown + AuthService" where
  "login lib fnd db auth username password =
     (case getUser db username of
        Inl e \<Rightarrow> Inl e
      | Inr None \<Rightarrow> Inl (Auth invalidCredentials)
      | Inr (Some user) \<Rightarrow>
          (case verifyPassword lib password (u_passwordHash user) of
             Inl e \<Rightarrow> Inl e
           | Inr ok \<Rightarrow>
               if \<not> ok then Inl (Auth invalidCredentials)
               else
                 (case Data_hexString fnd (u_encryptionSalt user) of
                    None \<Rightarrow> Inl (Auth invalidEncryptionSalt)
                  | Some encSaltData \<Rightarrow>
                      (case deriveEncryptionKey lib password encSaltData of
                         Inl e \<Rightarrow> Inl e
                       | Inr key \<Rightarrow>
                           Inr (auth\<lparr>auth_encryptionKey := Some key,
                                     auth_isAuthenticated := True\<rparr>)))))"

text \<open>
  A sequence of unlock attempts against one database: each attempt is a call of
  \<^verbatim>\<open>login\<close>; a throw leaves the service as it was. The result lists the outcome of
  every attempt (the error thrown, or success) and gives the final service state.
\<close>

definition outcome :: "thrown + 'a \<Rightarrow> thrown + unit" where
  "outcome r = (case r of Inl e \<Rightarrow> Inl e | Inr _ \<Rightarrow> Inr ())"

fun login_attempts ::
  "'r Argon2Swift \<Rightarrow> Foundation \<Rightarrow> Database \<Rightarrow> AuthService \<Rightarrow> (string \<times> string) list
     \<Rightarrow> (thrown + unit) list \<times> AuthService" where
  "login_attempts lib fnd db auth [] = ([], auth)"
| "login_attempts lib fnd db auth ((username, password) # rest) =
     (case login lib fnd db auth username password of
        Inl e \<Rightarrow> (let (outs, auth') = login_attempts lib fnd db auth rest in (Inl e # outs, auth'))
      | Inr auth1 \<Rightarrow>
          (let (outs, auth') = login_attempts lib fnd db auth1 rest in (Inr () # outs, auth')))"

section \<open>VaultListView.swift\<close>

text \<open>The body of the \<^verbatim>\<open>compactMap\<close> closure in \<^verbatim>\<open>loadEntries\<close>.\<close>

definition displayEntry :: "AES_GCM \<Rightarrow> Foundation \<Rightarrow> Data \<Rightarrow> VaultEntry \<Rightarrow> DisplayEntry option" where
  "displayEntry gcm fnd key entry =
     (if ve_nonce entry = [] then
        Some \<lparr>de_entry = entry,
              de_data = (case JSONDecoder_decode fnd (ve_dataBlob entry) of
                           Some d \<Rightarrow> d | None \<Rightarrow> VaultEntryData_init)\<rparr>
      else
        (case decrypt gcm (ve_dataBlob entry) (ve_nonce entry) key of
           Inl e \<Rightarrow> None
         | Inr plaintext \<Rightarrow>
             Some \<lparr>de_entry = entry,
                   de_data = (case JSONDecoder_decode fnd plaintext of
                                Some d \<Rightarrow> d | None \<Rightarrow> VaultEntryData_init)\<rparr>))"

text \<open>
  \<^verbatim>\<open>loadEntries\<close>. The result is the view's \<^verbatim>\<open>entries\<close> after the call and the errors
  it printed. Without a session key it returns at once. When the fetch throws, the
  \<^verbatim>\<open>catch\<close> prints the error and \<^verbatim>\<open>entries\<close> keeps its value; otherwise
  \<^verbatim>\<open>entries\<close> becomes the \<^verbatim>\<open>compactMap\<close> of the fetched rows. The view has no
  error state.
\<close>

definition loadEntries ::
  "AES_GCM \<Rightarrow> Foundation \<Rightarrow> Database \<Rightarrow> AuthService \<Rightarrow> DisplayEntry list
     \<Rightarrow> DisplayEntry list \<times> thrown list" where
  "loadEntries gcm fnd db auth entries =
     (case auth_encryptionKey auth of
        None \<Rightarrow> (entries, [])
      | Some key \<Rightarrow>
          (case getActiveEntries db (auth_activeProfileId auth) of
             Inl error \<Rightarrow> (entries, [error])
           | Inr rawEntries \<Rightarrow> (List.map_filter (displayEntry gcm fnd key) rawEntries, [])))"

section \<open>The sync orchestrator\<close>

text \<open>
  \<^verbatim>\<open>SyncOrchestrator\<close> with the part of \<^verbatim>\<open>BLECentralManager\<close> it uses: the peer's
  public key as read from the Pairing characteristic, whether that characteristic is
  known, and the values written to it. The text of an error state is its cause.
\<close>

datatype SyncFailure = NoPeerPublicKey | NotPaired | PairingFailed thrown

datatype SyncState = idle | scanning | pairing | paired | transferring | complete | error SyncFailure

record SyncOrchestrator =
  sync_state :: SyncState
  sessionKey :: "Data option"
  peerPublicKey :: "Data option"
  pairingChar :: bool
  pairingWrites :: "Data list"

text \<open>\<^verbatim>\<open>writePairingData\<close>: nothing is written without the characteristic.\<close>

definition writePairingData :: "SyncOrchestrator \<Rightarrow> Data \<Rightarrow> SyncOrchestrator" where
  "writePairingData orch payload =
     (if \<not> pairingChar orch then orch
      else orch\<lparr>pairingWrites := pairingWrites orch @ [payload]\<rparr>)"

text \<open>
  \<^verbatim>\<open>submitPairingCode\<close>; \<open>privateKey\<close> is the key pair drawn by
  \<^verbatim>\<open>generateECDHKeyPair\<close>. Every \<^verbatim>\<open>throw\<close> inside the \<^verbatim>\<open>do\<close> block ends in the
  error state; a throw of the key derivation comes after the write.
\<close>

definition submitPairingCode ::
  "('sk, 'pk) P256_KeyAgreement \<Rightarrow> 'sk \<Rightarrow> SyncOrchestrator \<Rightarrow> string \<Rightarrow> SyncOrchestrator" where
  "submitPairingCode ck privateKey orch code =
     (case peerPublicKey orch of
        None \<Rightarrow> orch\<lparr>sync_state := error NoPeerPublicKey\<rparr>
      | Some peerPublicKeyData \<Rightarrow>
          (case PublicKey_compactRepresentation ck peerPublicKeyData of
             Inl e \<Rightarrow> orch\<lparr>sync_state := error (PairingFailed e)\<rparr>
           | Inr peerKey \<Rightarrow>
               (let publicKeyData = compressedRepresentation ck (publicKey ck privateKey);
                    hmac = computePairingHMAC ck code publicKeyData;
                    pairingPayload = publicKeyData @ hmac;
                    orch1 = writePairingData orch pairingPayload
                in case deriveSessionKey ck privateKey peerKey of
                     Inl e \<Rightarrow> orch1\<lparr>sync_state := error (PairingFailed e)\<rparr>
                   | Inr k \<Rightarrow> orch1\<lparr>sessionKey := Some k, sync_state := paired\<rparr>)))"

section \<open>The receive path of the central\<close>

text \<open>
  \<^verbatim>\<open>BLECentralManager\<close>: its published state and progress and the private list
  \<^verbatim>\<open>receivedChunks\<close>. The constructors of \<^verbatim>\<open>BLEState\<close> carry a prefix, the names
  being taken by \<^verbatim>\<open>SyncState\<close>. \<^verbatim>\<open>CBUUID\<close> has the four characteristics the
  delegate distinguishes and one value for every other identifier.
\<close>

datatype BLEState =
    ble_idle | ble_scanning | ble_connecting | ble_connected | ble_ready | ble_pairing
  | ble_transferring | ble_complete | ble_error string

datatype SyncMode = push | pull

datatype CBUUID =
  modeCharUUID | pairingCharUUID | syncControlCharUUID | dataTransferCharUUID | otherUUID

record SyncProgress =
  sp_mode :: SyncMode
  sp_peerPublicKey :: "Data option"
  sp_chunksReceived :: int
  sp_totalChunks :: int
  sp_entriesSynced :: int

record BLECentralManager =
  ble_state :: BLEState
  syncProgress :: SyncProgress
  receivedChunks :: "Data list"

definition handleSyncControl :: "BLECentralManager \<Rightarrow> byte \<Rightarrow> BLECentralManager" where
  "handleSyncControl mgr control =
     (if control = 0x04 then mgr\<lparr>ble_state := ble_complete\<rparr>
      else if control = 0x03 then mgr\<lparr>ble_state := ble_error ''Sync aborted by desktop''\<rparr>
      else mgr)"

text \<open>
  \<^verbatim>\<open>peripheral(_:didUpdateValueFor:error:)\<close>, called for every value read or notified;
  \<open>value\<close> is \<^verbatim>\<open>characteristic.value\<close>. A value of the Data Transfer characteristic
  is appended to \<^verbatim>\<open>receivedChunks\<close> as it came.
\<close>

definition didUpdateValueFor :: "BLECentralManager \<Rightarrow> CBUUID \<Rightarrow> Data option \<Rightarrow> BLECentralManager" where
  "didUpdateValueFor mgr uuid val =
     (case val of
        None \<Rightarrow> mgr
      | Some data \<Rightarrow>
          (case uuid of
             modeCharUUID \<Rightarrow>
               (case data of
                  [] \<Rightarrow> mgr
                | mode # _ \<Rightarrow>
                    mgr\<lparr>syncProgress := (syncProgress mgr)\<lparr>sp_mode := (if mode = 0x01 then push else pull)\<rparr>\<rparr>)
           | pairingCharUUID \<Rightarrow>
               mgr\<lparr>syncProgress := (syncProgress mgr)\<lparr>sp_peerPublicKey := Some data\<rparr>\<rparr>
           | syncControlCharUUID \<Rightarrow>
               (case data of [] \<Rightarrow> mgr | ctrl # _ \<Rightarrow> handleSyncControl mgr ctrl)
           | dataTransferCharUUID \<Rightarrow>
               (let chunks = receivedChunks mgr @ [data]
                in mgr\<lparr>receivedChunks := chunks,
                       syncProgress := (syncProgress mgr)\<lparr>sp_chunksReceived := int (length chunks)\<rparr>\<rparr>)
           | otherUUID \<Rightarrow> mgr))"

section \<open>Stand-ins for the libraries\<close>





definition sized_p256 :: "(Data, Data) P256_KeyAgreement" where
  "sized_p256 =
     \<lparr>PublicKey_compactRepresentation =
        (\<lambda>d. if length d = 32 then Inr d else Inl (CryptoKit incorrectParameterSize)),
      publicKey = (\<lambda>sk. sk),
      compressedRepresentation = (\<lambda>pk. 2 # pk),
      sharedSecretFromKeyAgreement = (\<lambda>sk pk. Inr (map2 (XOR) sk pk)),
      hkdfDerivedSymmetricKey = (\<lambda>secret salt info n. take n (secret @ replicate n 0)),
      HMAC_SHA256 = (\<lambda>message key. replicate 32 (xor_fold (key @ message)))\<rparr>"

text \<open>
  The example database: the row of one user, and three vault rows in profile 1. The first
  holds the empty JSON object sealed by \<open>checksum_gcm\<close> under the key of \<open>unlocked\<close>
  below, the second is that row with one bit of the tag flipped, the third is a row
  without nonce.
\<close>

definition alice :: User where
  "alice =
     \<lparr>u_username = ''alice'',
      u_passwordHash =
        ''$argon2id$v=19$m=19456,t=2,p=1$MDEyMzQ1Njc4OWFiY2RlZg$9sTbSlTio3Pk5G8lMfB7X1vKzqfZ8d0Yw2hQeR4nUaE'',
      u_salt = ''MDEyMzQ1Njc4OWFiY2RlZg'',
      u_encryptionSalt = ''000102030405060708090a0b0c0d0e0f101112131415161718191a1b1c1d1e1f''\<rparr>"

definition row1 :: VaultEntry where
  "row1 = \<lparr>ve_id = Some 1, ve_uuid = ''github.com'',
           ve_dataBlob = [0x7B, 0x7D, 0x06] @ replicate 15 0, ve_nonce = replicate 12 9,
           ve_profileId = 1, ve_entryUuid = Some ''6f1d2c3b-0a49-4c58-9e77-51b2a3c4d5e6'',
           ve_createdAt = ''2026-01-01T00:00:00Z'', ve_updatedAt = ''2026-01-01T00:00:00Z'',
           ve_deletedAt = None, ve_syncVersion = 1\<rparr>"

definition row2 :: VaultEntry where
  "row2 = \<lparr>ve_id = Some 2, ve_uuid = ''example.org'',
           ve_dataBlob = [0x7B, 0x7D, 0x07] @ replicate 15 0, ve_nonce = replicate 12 9,
           ve_profileId = 1, ve_entryUuid = Some ''0b9e8d7c-6a5f-4e3d-8c2b-1a0f9e8d7c6b'',
           ve_createdAt = ''2026-01-02T00:00:00Z'', ve_updatedAt = ''2026-01-02T00:00:00Z'',
           ve_deletedAt = None, ve_syncVersion = 2\<rparr>"

definition row3 :: VaultEntry where
  "row3 = \<lparr>ve_id = Some 3, ve_uuid = ''legacy'', ve_dataBlob = utf8 ''{}'', ve_nonce = [],
           ve_profileId = 1, ve_entryUuid = None, ve_createdAt = ''2025-01-01T00:00:00Z'',
           ve_updatedAt = ''2025-01-01T00:00:00Z'', ve_deletedAt = None, ve_syncVersion = 4\<rparr>"

definition example_db :: Database where
  "example_db = \<lparr>users = [alice], vault_entries = [row1, row2, row3]\<rparr>"

text \<open>A database whose only vault row is the row without nonce.\<close>

definition legacy_db :: Database where
  "legacy_db = \<lparr>users = [alice], vault_entries = [row3]\<rparr>"


text \<open>
  The base point of P-256 in compressed form: \<open>0x03\<close> (its y-coordinate is odd) followed by
  the 32 bytes of its x-coordinate.
\<close>

definition compressed_base_point :: Data where
  "compressed_base_point =
     [0x03,
      0x6B, 0x17, 0xD1, 0xF2, 0xE1, 0x2C, 0x42, 0x47, 0xF8, 0xBC, 0xE6, 0xE5, 0x63, 0xA4, 0x40, 0xF2,
      0x77, 0x03, 0x7D, 0x81, 0x2D, 0xEB, 0x33, 0xA0, 0xF4, 0xA1, 0x39, 0x45, 0xD8, 0x98, 0xC2, 0x96]"

text \<open>An orchestrator in state \<^verbatim>\<open>pairing\<close> that has read \<open>d\<close> from the Pairing characteristic.\<close>

definition ready_to_pair :: "Data \<Rightarrow> SyncOrchestrator" where
  "ready_to_pair d =
     \<lparr>sync_state = pairing, sessionKey = None, peerPublicKey = Some d, pairingChar = True,
      pairingWrites = []\<rparr>"

definition unlocked :: AuthService where
  "unlocked = \<lparr>auth_isRegistered = True, auth_isAuthenticated = True, auth_activeProfileId = 1,
                auth_encryptionKey = Some (replicate 32 7)\<rparr>"


text \<open>A central that is receiving a transfer and has taken no frame yet.\<close>

definition receiving :: BLECentralManager where
  "receiving =
     \<lparr>ble_state = ble_ready,
      syncProgress = \<lparr>sp_mode = push, sp_peerPublicKey = None, sp_chunksReceived = 0,
                       sp_totalChunks = 0, sp_entriesSynced = 0\<rparr>,
      receivedChunks = []\<rparr>"

chapter \<open>Properties\<close>

section \<open>Chunking and reassembly\<close>

lemma map_trap_Inr:
  "(\<And>x. x \<in> set xs \<Longrightarrow> f x = Inr (g x)) \<Longrightarrow> map_trap f xs = Inr (map g xs)"
  by (induction xs) auto

lemma concat_pieces:
  "concat (map (\<lambda>i. take m (drop (i * m) xs)) [0..<k]) = take (k * m) xs"
proof (induction k)
  case 0
  then show ?case by simp
next
  case (Suc k)
  have "take (k * m) xs @ take m (drop (k * m) xs) = take (k * m + m) xs"
    by (simp add: take_add)
  with Suc show ?case by (simp add: add.commute)
qed

lemma reassemble_loop_full:
  "reassemble_loop i (map Some ps) acc = Inr (acc @ concat ps)"
  by (induction ps arbitrary: i acc) auto

lemma chunkCount_bound: "n \<le> 10485760 \<Longrightarrow> chunkCount n < 65536"
  by (simp add: chunkCount_def maxChunkData_def)

lemma chunkCount_pos: "0 < chunkCount n"
  by (simp add: chunkCount_def)

lemma chunkCount_start: "i < chunkCount n \<Longrightarrow> i * maxChunkData \<le> n"
  by (auto simp: chunkCount_def maxChunkData_def max_def split: if_splits)

lemma chunkCount_covers: "n \<le> chunkCount n * maxChunkData"
  by (auto simp: chunkCount_def maxChunkData_def max_def split: if_splits)

lemma chunk_at_ok:
  assumes "i * maxChunkData \<le> length data" and "i < 65536"
  shows "chunk_at data (of_nat k) i = Inr (mk_chunk data k i)"
proof -
  let ?lo = "i * maxChunkData"
  let ?hi = "min (?lo + maxChunkData) (length data)"
  have "take (?hi - ?lo) (drop ?lo data) = piece data i"
    using assms(1) by (simp add: piece_def min_def)
  with assms show ?thesis
    by (simp add: chunk_at_def subdata_def UInt16_def mk_chunk_def Let_def)
qed

lemma chunkData_ok:
  assumes "length data \<le> 10485760"
  shows "chunkData data =
           Inr (map (mk_chunk data (chunkCount (length data))) [0..<chunkCount (length data)])"
proof -
  let ?k = "chunkCount (length data)"
  have k: "?k < 65536" using assms by (rule chunkCount_bound)
  have "map_trap (chunk_at data (of_nat ?k)) [0..<?k] = Inr (map (mk_chunk data ?k) [0..<?k])"
  proof (rule map_trap_Inr)
    fix i assume "i \<in> set [0..<?k]"
    then have "i < ?k" by simp
    then show "chunk_at data (of_nat ?k) i = Inr (mk_chunk data ?k i)"
      using k by (intro chunk_at_ok chunkCount_start) auto
  qed
  moreover have "max 1 ((length data + maxChunkData - 1) div maxChunkData) = ?k"
    by (simp add: chunkCount_def)
  ultimately show ?thesis
    unfolding chunkData_def Let_def using k by (simp add: UInt16_def)
qed

lemma addChunk_next:
  assumes "k < 65536" and "j < k"
  shows "addChunk \<lparr>rsm_total = k,
                    rsm_chunks = map (\<lambda>i. Some (piece data i)) [0..<j] @ replicate (k - j) None,
                    rsm_receivedCount = j\<rparr> (mk_chunk data k j)
         = Inr (Suc j = k,
                \<lparr>rsm_total = k,
                 rsm_chunks = map (\<lambda>i. Some (piece data i)) [0..<Suc j] @ replicate (k - Suc j) None,
                 rsm_receivedCount = Suc j\<rparr>)"
proof -
  have u: "unat (of_nat j :: 16 word) = j"
    using assms by (simp add: unat_of_nat)
  have r: "replicate (k - j) (None :: Data option) = None # replicate (k - Suc j) None"
    using assms(2) by (simp add: Suc_diff_Suc flip: replicate_Suc)
  show ?thesis
    using assms by (simp add: addChunk_def UInt16_def mk_chunk_def u Let_def r nth_append list_update_append)
qed

lemma addChunks_rest:
  assumes "k < 65536" and "j \<le> k"
  shows "addChunks \<lparr>rsm_total = k,
                     rsm_chunks = map (\<lambda>i. Some (piece data i)) [0..<j] @ replicate (k - j) None,
                     rsm_receivedCount = j\<rparr> (map (mk_chunk data k) [j..<k])
         = Inr \<lparr>rsm_total = k, rsm_chunks = map (\<lambda>i. Some (piece data i)) [0..<k],
                rsm_receivedCount = k\<rparr>"
  using assms(2)
proof (induction "k - j" arbitrary: j)
  case 0
  then show ?case by simp
next
  case (Suc d)
  then have jk: "j < k" by simp
  have IH: "addChunks \<lparr>rsm_total = k,
                     rsm_chunks = map (\<lambda>i. Some (piece data i)) [0..<Suc j] @ replicate (k - Suc j) None,
                     rsm_receivedCount = Suc j\<rparr> (map (mk_chunk data k) [Suc j..<k])
         = Inr \<lparr>rsm_total = k, rsm_chunks = map (\<lambda>i. Some (piece data i)) [0..<k],
                rsm_receivedCount = k\<rparr>"
    using Suc jk by (intro Suc.hyps(1)) auto
  have "[j..<k] = j # [Suc j..<k]" using jk by (simp add: upt_conv_Cons)
  then show ?case
    using addChunk_next [OF assms(1) jk, of data] IH by (simp del: upt_Suc map_append)
qed

lemma addChunks_all:
  assumes "k < 65536"
  shows "addChunks (init k) (map (mk_chunk data k) [0..<k])
         = Inr \<lparr>rsm_total = k, rsm_chunks = map (\<lambda>i. Some (piece data i)) [0..<k],
                rsm_receivedCount = k\<rparr>"
  using addChunks_rest [OF assms, of 0 data] by (simp add: init_def)

lemma reassemble_all:
  assumes "length data \<le> k * maxChunkData"
  shows "reassemble \<lparr>rsm_total = k, rsm_chunks = map (\<lambda>i. Some (piece data i)) [0..<k],
                rsm_receivedCount = k\<rparr> = Inr data"
proof -
  have "map (\<lambda>i. Some (piece data i)) [0..<k] = map Some (map (piece data) [0..<k])"
    by simp
  moreover have "piece data = (\<lambda>i. take maxChunkData (drop (i * maxChunkData) data))"
    by (simp add: piece_def fun_eq_iff)
  then have "concat (map (piece data) [0..<k]) = data"
    using assms concat_pieces [of maxChunkData data k] by simp
  ultimately show ?thesis
    by (simp add: reassemble_def reassemble_loop_full del: map_map)
qed

lemma mk_chunk_fields:
  "i < 65536 \<Longrightarrow> unat (chunk_index (mk_chunk data k i)) = i"
  "k < 65536 \<Longrightarrow> unat (chunk_total (mk_chunk data k i)) = k"
  "length (chunk_data (mk_chunk data k i)) \<le> maxChunkData"
  "chunk_crc32 (mk_chunk data k i) = CRC32_compute (chunk_data (mk_chunk data k i))"
  by (simp_all add: mk_chunk_def piece_def unat_of_nat)

section \<open>CRC32 and the wire format\<close>

lemma funpow_8: "(f ^^ 8) x = f (f (f (f (f (f (f (f x)))))))"
  by (simp add: eval_nat_numeral)

lemma load16_le16: "load16 (le16 w) = w"
  unfolding load16_def le16_def
  by (rule bit_word_eqI) (auto simp: bit_simps)

lemma load32_le32: "load32 (le32 w) = w"
  unfolding load32_def le32_def
  apply (rule bit_word_eqI)
  subgoal for n
    by (cases "8 \<le> n"; cases "16 \<le> n"; cases "24 \<le> n") (auto simp: bit_simps)
  done

lemma crc_shift_alt:
  "crc_shift c = drop_bit 1 c XOR (if bit c 0 then 0xEDB88320 else 0)"
  by (simp add: crc_shift_def and_one_eq mod_2_eq_odd bit_0 xor.commute)

lemma crc_shift_xor: "crc_shift (a XOR b) = crc_shift a XOR crc_shift b"
  unfolding crc_shift_alt
  by (rule bit_word_eqI) (auto simp: bit_simps)

lemma crc_shift_zero:
  assumes "crc_shift x = 0" shows "x = 0"
proof -
  have b0: "\<not> bit x 0"
  proof
    assume "bit x 0"
    with assms have "drop_bit 1 x XOR 0xEDB88320 = 0" by (simp add: crc_shift_alt)
    then have "bit (drop_bit 1 x XOR 0xEDB88320) 31 = bit (0 :: 32 word) 31" by simp
    then show False by (auto simp: bit_simps dest: bit_imp_le_length)
  qed
  with assms have d: "drop_bit 1 x = 0" by (simp add: crc_shift_alt)
  show ?thesis
  proof (rule bit_word_eqI)
    fix n
    show "bit x n = bit (0 :: 32 word) n"
    proof (cases n)
      case 0
      with b0 show ?thesis by simp
    next
      case (Suc m)
      have "bit (drop_bit 1 x) m = bit x (Suc m)" by (simp add: bit_simps)
      with d Suc show ?thesis by simp
    qed
  qed
qed

lemma xor_left_cancel: "(c :: 'a::len word) XOR x = c XOR y \<longleftrightarrow> x = y"
  by (auto simp: bit_eq_iff bit_xor_iff)

lemma xor_right_cancel: "(x :: 'a::len word) XOR c = y XOR c \<longleftrightarrow> x = y"
  by (auto simp: bit_eq_iff bit_xor_iff)

lemma crc_shift_inj: "crc_shift a = crc_shift b \<Longrightarrow> a = b"
proof -
  assume "crc_shift a = crc_shift b"
  then have "crc_shift (a XOR b) = 0" by (simp add: crc_shift_xor)
  then have "a XOR b = 0" by (rule crc_shift_zero)
  then have "a XOR b = b XOR b" by simp
  then show "a = b" by (simp only: xor_right_cancel)
qed

lemma crc_shift_high:
  assumes "take_bit 8 x = 0" and "k < 8"
  shows "crc_shift (drop_bit k x) = drop_bit (Suc k) x"
proof -
  have "bit (take_bit 8 x) k = bit x k" using assms(2) by (simp add: bit_simps)
  with assms(1) have "\<not> bit x k" by simp
  then show ?thesis by (simp add: crc_shift_alt bit_simps)
qed

lemma crc_shift8_high:
  assumes "take_bit 8 x = 0"
  shows "(crc_shift ^^ 8) x = drop_bit 8 x"
proof -
  have "(crc_shift ^^ k) x = drop_bit k x" if "k \<le> 8" for k
    using that
  proof (induction k)
    case 0
    then show ?case by simp
  next
    case (Suc k)
    then show ?case using crc_shift_high [OF assms, of k] by simp
  qed
  then show ?thesis by simp
qed

lemma crc_shift8_xor: "(crc_shift ^^ k) (a XOR b) = (crc_shift ^^ k) a XOR (crc_shift ^^ k) b"
  by (induction k) (simp_all add: crc_shift_xor)

lemma crc_shift8_inj: "(crc_shift ^^ k) a = (crc_shift ^^ k) b \<Longrightarrow> a = b"
  by (induction k) (auto dest: crc_shift_inj)

lemma byte_mask: "(x :: 32 word) AND 0xFF = take_bit 8 x"
proof -
  have "(0xFF :: 32 word) = mask 8" by (simp add: mask_eq_exp_minus_1)
  then show ?thesis by (simp add: take_bit_eq_mask)
qed

lemma unat_take_bit_8: "unat (take_bit 8 (x :: 32 word)) < 256"
proof -
  have "unat (take_bit 8 x) = take_bit 8 (unat x)" by (simp add: unsigned_take_bit_eq)
  also have "\<dots> < 2 ^ 8" by (rule take_bit_nat_less_exp)
  finally show ?thesis by simp
qed

lemma split_low_high: "(x :: 32 word) = take_bit 8 x XOR push_bit 8 (drop_bit 8 x)"
  by (rule bit_word_eqI) (auto simp: bit_simps)

lemma drop_bit_8_xor_byte: "drop_bit 8 (c XOR ucast (b :: byte)) = drop_bit 8 (c :: 32 word)"
  by (rule bit_word_eqI) (auto simp: bit_simps dest: bit_imp_le_length)

lemma crc_update_bitwise: "crc_update c b = (crc_shift ^^ 8) (c XOR ucast b)"
proof -
  let ?x = "c XOR ucast b"
  let ?lo = "take_bit 8 ?x"
  let ?hi = "push_bit 8 (drop_bit 8 ?x)"
  have lo: "unat ?lo < 256" by (rule unat_take_bit_8)
  then have "CRC32_table ! unat ?lo = crc_table_entry (unat ?lo)"
    by (simp add: CRC32_table_def)
  then have tab: "CRC32_table ! unat ?lo = (crc_shift ^^ 8) ?lo"
    by (simp add: crc_table_entry_def)
  have "take_bit 8 ?hi = 0"
    by (rule bit_word_eqI) (auto simp: bit_simps)
  then have "(crc_shift ^^ 8) ?hi = drop_bit 8 ?hi" by (rule crc_shift8_high)
  also have "\<dots> = drop_bit 8 ?x"
    by (rule bit_word_eqI) (auto simp: bit_simps dest: bit_imp_le_length)
  also have "\<dots> = drop_bit 8 c" by (rule drop_bit_8_xor_byte)
  finally have hi: "(crc_shift ^^ 8) ?hi = drop_bit 8 c" .
  have "?x = ?lo XOR ?hi" by (rule split_low_high)
  then have "(crc_shift ^^ 8) ?x = (crc_shift ^^ 8) (?lo XOR ?hi)" by (rule arg_cong)
  also have "\<dots> = CRC32_table ! unat ?lo XOR drop_bit 8 c"
    by (simp only: crc_shift8_xor tab hi)
  finally show ?thesis
    by (simp add: crc_update_def byte_mask Let_def)
qed

lemma crc_update_inj:
  assumes "crc_update c b = crc_update c' b'"
  shows "c XOR ucast b = c' XOR ucast b'"
  using assms unfolding crc_update_bitwise by (rule crc_shift8_inj)

lemma ucast_byte_inj:
  assumes "(ucast (b :: byte) :: 32 word) = ucast b'"
  shows "b = b'"
proof (rule bit_word_eqI)
  fix n assume "n < LENGTH(8)"
  then have "bit b n = bit (ucast b :: 32 word) n" and "bit b' n = bit (ucast b' :: 32 word) n"
    by (simp_all add: bit_simps)
  with assms show "bit b n = bit b' n" by simp
qed

lemma crc_update_inj_byte: "crc_update c b = crc_update c b' \<Longrightarrow> b = b'"
  by (drule crc_update_inj) (simp add: xor_left_cancel ucast_byte_inj)

lemma crc_update_inj_state: "crc_update c b = crc_update c' b \<Longrightarrow> c = c'"
  by (drule crc_update_inj) (simp add: xor_right_cancel)

lemma foldl_crc_update_inj:
  "foldl crc_update c xs = foldl crc_update c' xs \<Longrightarrow> c = c'"
  by (induction xs arbitrary: c c') (auto dest: crc_update_inj_state)

lemma CRC32_single_byte_change:
  assumes "i < length xs" and "b \<noteq> xs ! i"
  shows "CRC32_compute (xs[i := b]) \<noteq> CRC32_compute xs"
proof
  assume eq: "CRC32_compute (xs[i := b]) = CRC32_compute xs"
  have xs: "xs = take i xs @ xs ! i # drop (Suc i) xs"
    using assms(1) by (simp add: id_take_nth_drop)
  have upd: "xs[i := b] = take i xs @ b # drop (Suc i) xs"
    using assms(1) by (simp add: upd_conv_take_nth_drop)
  let ?c = "foldl crc_update 0xFFFFFFFF (take i xs)"
  have "foldl crc_update 0xFFFFFFFF (xs[i := b]) = foldl crc_update 0xFFFFFFFF xs"
    using eq by (simp add: CRC32_compute_def xor_right_cancel)
  then have "foldl crc_update (crc_update ?c b) (drop (Suc i) xs)
           = foldl crc_update (crc_update ?c (xs ! i)) (drop (Suc i) xs)"
    by (subst (asm) upd, subst (asm) (2) xs) simp
  then have "crc_update ?c b = crc_update ?c (xs ! i)" by (rule foldl_crc_update_inj)
  then have "b = xs ! i" by (rule crc_update_inj_byte)
  with assms(2) show False by simp
qed

lemma frame_fields:
  "length (le16 a @ le16 t @ le32 w @ p) = 8 + length p"
  "take 2 (le16 a @ le16 t @ le32 w @ p) = le16 a"
  "take 2 (drop 2 (le16 a @ le16 t @ le32 w @ p)) = le16 t"
  "take 4 (drop 4 (le16 a @ le16 t @ le32 w @ p)) = le32 w"
  "drop 8 (le16 a @ le16 t @ le32 w @ p) = p"
  by (simp_all add: le16_def le32_def)

lemma fromBytes_frame:
  "fromBytes (le16 a @ le16 t @ le32 w @ p) =
     (if CRC32_compute p = w
      then Inr \<lparr>chunk_index = a, chunk_total = t, chunk_crc32 = w, chunk_data = p\<rparr>
      else Inl (CRC32Mismatch a))"
  unfolding fromBytes_def frame_fields Let_def
  by (simp add: load16_le16 load32_le32)

lemma fromBytes_toBytes:
  "chunk_crc32 c = CRC32_compute (chunk_data c) \<Longrightarrow> fromBytes (toBytes c) = Inr c"
  by (simp add: toBytes_def fromBytes_frame)

text \<open>
  Claim C1. For every byte sequence of at most 10 MiB, \<^verbatim>\<open>chunkData\<close> returns (it does
  not trap) a non-empty list of chunks in index order, each with a payload of at most
  \<open>maxChunkData = 493\<close> bytes, with \<^verbatim>\<open>total\<close> equal to the number of chunks and with a
  \<^verbatim>\<open>crc32\<close> field equal to the CRC32 of its own payload, so that its wire image passes
  the check of \<^verbatim>\<open>Chunk.fromBytes\<close>; adding all of them to a
  \<^verbatim>\<open>ChunkReassembler\<close> constructed with that total succeeds, and \<^verbatim>\<open>reassemble\<close> then
  returns exactly the original bytes.
\<close>

theorem chunk_reassemble_roundtrip:
  assumes "length data \<le> 10 * 1024 * 1024"
  shows "\<exists>cs r. chunkData data = Inr cs
           \<and> 1 \<le> length cs
           \<and> map (\<lambda>c. unat (chunk_index c)) cs = [0..<length cs]
           \<and> (\<forall>c\<in>set cs. unat (chunk_total c) = length cs
                 \<and> length (chunk_data c) \<le> maxChunkData
                 \<and> chunk_crc32 c = CRC32_compute (chunk_data c)
                 \<and> fromBytes (toBytes c) = Inr c)
           \<and> addChunks (init (length cs)) cs = Inr r
           \<and> reassemble r = Inr data"
proof -
  let ?k = "chunkCount (length data)"
  let ?cs = "map (mk_chunk data ?k) [0..<?k]"
  let ?r = "\<lparr>rsm_total = ?k, rsm_chunks = map (\<lambda>i. Some (piece data i)) [0..<?k],
             rsm_receivedCount = ?k\<rparr>"
  have n: "length data \<le> 10485760" using assms by simp
  have k: "?k < 65536" using n by (rule chunkCount_bound)
  have len: "length ?cs = ?k" by simp
  have 1: "chunkData data = Inr ?cs" using n by (rule chunkData_ok)
  have 2: "1 \<le> length ?cs" using chunkCount_pos [of "length data"] by simp
  have 3: "map (\<lambda>c. unat (chunk_index c)) ?cs = [0..<length ?cs]"
  proof -
    have "map (\<lambda>c. unat (chunk_index c)) ?cs = map (\<lambda>i. i) [0..<?k]"
      unfolding map_map using k by (intro map_cong) (auto simp: mk_chunk_fields)
    then show ?thesis by simp
  qed
  have 4: "\<forall>c\<in>set ?cs. unat (chunk_total c) = length ?cs
             \<and> length (chunk_data c) \<le> maxChunkData
             \<and> chunk_crc32 c = CRC32_compute (chunk_data c)
             \<and> fromBytes (toBytes c) = Inr c"
    using k by (auto simp: mk_chunk_fields intro: fromBytes_toBytes)
  have 5: "addChunks (init (length ?cs)) ?cs = Inr ?r"
    unfolding len using k by (rule addChunks_all)
  have 6: "reassemble ?r = Inr data"
    by (rule reassemble_all) (rule chunkCount_covers)
  from 1 2 3 4 5 6 show ?thesis by blast
qed

theorem chunk_reassemble_roundtrip_witness:
  "length (replicate 1000 (0x41 :: byte)) \<le> 10 * 1024 * 1024
   \<and> (\<exists>cs r. chunkData (replicate 1000 0x41) = Inr cs
           \<and> 1 \<le> length cs
           \<and> map (\<lambda>c. unat (chunk_index c)) cs = [0..<length cs]
           \<and> (\<forall>c\<in>set cs. unat (chunk_total c) = length cs
                 \<and> length (chunk_data c) \<le> maxChunkData
                 \<and> chunk_crc32 c = CRC32_compute (chunk_data c)
                 \<and> fromBytes (toBytes c) = Inr c)
           \<and> addChunks (init (length cs)) cs = Inr r
           \<and> reassemble r = Inr (replicate 1000 0x41))"
proof -
  have h: "length (replicate 1000 (0x41 :: byte)) \<le> 10 * 1024 * 1024" by simp
  from h chunk_reassemble_roundtrip [OF h] show ?thesis by (rule conjI)
qed

lemma toBytes_payload_update:
  "(toBytes c)[8 + i := b] =
     le16 (chunk_index c) @ le16 (chunk_total c) @ le32 (chunk_crc32 c) @ (chunk_data c)[i := b]"
  by (simp add: toBytes_def le16_def le32_def)

lemma fromBytes_payload_flip:
  assumes "chunk_crc32 c = CRC32_compute (chunk_data c)"
    and "i < length (chunk_data c)" and "b \<noteq> chunk_data c ! i"
  shows "fromBytes ((toBytes c)[8 + i := b]) = Inl (CRC32Mismatch (chunk_index c))"
  using CRC32_single_byte_change [OF assms(2,3)] assms(1)
  by (simp add: toBytes_payload_update fromBytes_frame)

lemma fromBytes_crc_mismatch:
  assumes "8 \<le> length bytes"
    and "load32 (take 4 (drop 4 bytes)) \<noteq> CRC32_compute (drop 8 bytes)"
  shows "fromBytes bytes = Inl (CRC32Mismatch (load16 (take 2 bytes)))"
  using assms by (auto simp: fromBytes_def Let_def)

lemma addChunk_total_mismatch:
  assumes "unat (chunk_total c) \<noteq> rsm_total r"
  shows "addChunk r c = (if rsm_total r < 65536 then Inl TotalMismatch else Inl RuntimeTrap)"
proof (cases "rsm_total r < 65536")
  case True
  then have "unat (of_nat (rsm_total r) :: 16 word) = rsm_total r"
    by (simp add: unat_of_nat)
  with assms have "chunk_total c \<noteq> of_nat (rsm_total r)" by auto
  with True show ?thesis by (simp add: addChunk_def UInt16_def)
next
  case False
  then show ?thesis by (simp add: addChunk_def UInt16_def)
qed

lemma map_trap_set:
  "map_trap f xs = Inr ys \<Longrightarrow> y \<in> set ys \<Longrightarrow> \<exists>x\<in>set xs. f x = Inr y"
  by (induction xs arbitrary: ys) (auto split: sum.splits)

lemma chunk_at_crc:
  "chunk_at data t i = Inr c \<Longrightarrow> chunk_crc32 c = CRC32_compute (chunk_data c)"
  by (auto simp: chunk_at_def Let_def split: sum.splits)

lemma chunkData_crc:
  assumes "chunkData data = Inr cs" and "c \<in> set cs"
  shows "chunk_crc32 c = CRC32_compute (chunk_data c)"
proof -
  from assms(1) obtain t k where "map_trap (chunk_at data t) [0..<k] = Inr cs"
    by (auto simp: chunkData_def Let_def split: sum.splits)
  with assms(2) obtain i where "chunk_at data t i = Inr c"
    by (blast dest: map_trap_set)
  then show ?thesis by (rule chunk_at_crc)
qed

text \<open>
  What the two checks of \<^verbatim>\<open>BLEProtocol\<close> do when they are called: a frame whose
  stored \<^verbatim>\<open>crc32\<close> differs from the CRC32 of its payload makes \<^verbatim>\<open>Chunk.fromBytes\<close>
  return the CRC32 mismatch; a chunk whose \<^verbatim>\<open>total\<close> differs from the reassembler's
  total makes \<^verbatim>\<open>addChunk\<close> return the total mismatch (whenever the reassembler's
  total is a 16-bit value; a larger total stops at the conversion \<^verbatim>\<open>UInt16(total)\<close>);
  and for every chunk that \<^verbatim>\<open>chunkData\<close> produces, replacing any one payload byte of
  its wire image by a different byte makes \<^verbatim>\<open>Chunk.fromBytes\<close> return the CRC32
  mismatch.
\<close>

lemma fromBytes_addChunk_reject:
  "(8 \<le> length bytes \<and> load32 (take 4 (drop 4 bytes)) \<noteq> CRC32_compute (drop 8 bytes)
      \<longrightarrow> fromBytes bytes = Inl (CRC32Mismatch (load16 (take 2 bytes))))
   \<and> (unat (chunk_total c) \<noteq> rsm_total r \<and> rsm_total r < 65536
      \<longrightarrow> addChunk r c = Inl TotalMismatch)
   \<and> (chunkData data = Inr cs \<and> c' \<in> set cs \<and> i < length (chunk_data c')
        \<and> b \<noteq> chunk_data c' ! i
      \<longrightarrow> fromBytes ((toBytes c')[8 + i := b]) = Inl (CRC32Mismatch (chunk_index c')))"
proof (intro conjI impI)
  assume "8 \<le> length bytes \<and> load32 (take 4 (drop 4 bytes)) \<noteq> CRC32_compute (drop 8 bytes)"
  then show "fromBytes bytes = Inl (CRC32Mismatch (load16 (take 2 bytes)))"
    by (simp add: fromBytes_crc_mismatch)
next
  assume "unat (chunk_total c) \<noteq> rsm_total r \<and> rsm_total r < 65536"
  then show "addChunk r c = Inl TotalMismatch" by (simp add: addChunk_total_mismatch)
next
  assume a: "chunkData data = Inr cs \<and> c' \<in> set cs \<and> i < length (chunk_data c')
        \<and> b \<noteq> chunk_data c' ! i"
  then have "chunk_crc32 c' = CRC32_compute (chunk_data c')"
    by (blast intro: chunkData_crc)
  with a show "fromBytes ((toBytes c')[8 + i := b]) = Inl (CRC32Mismatch (chunk_index c'))"
    by (simp add: fromBytes_payload_flip)
qed

lemma chunkData_example: "chunkData [1, 2, 3] = Inr [\<lparr>chunk_index = 0, chunk_total = 1, chunk_crc32 = 0x55BC801D, chunk_data = [1, 2, 3]\<rparr>]"
  by (simp add: chunkData_def chunk_at_def maxChunkData_def subdata_def UInt16_def
      CRC32_compute_def crc_update_def CRC32_table_def crc_table_entry_def crc_shift_def funpow_8)

lemma flipped_frame_example:
  "(toBytes \<lparr>chunk_index = 0, chunk_total = 1, chunk_crc32 = 0x55BC801D, chunk_data = [1, 2, 3]\<rparr>)
     [9 := 0xFF]
   = [0, 0, 1, 0, 0x1D, 0x80, 0xBC, 0x55, 1, 0xFF, 3]"
  by (simp add: toBytes_def le16_def le32_def)

lemma fromBytes_flipped_frame:
  "fromBytes [0, 0, 1, 0, 0x1D, 0x80, 0xBC, 0x55, 1, 0xFF, 3] = Inl (CRC32Mismatch 0)"
proof -
  let ?c = "\<lparr>chunk_index = 0, chunk_total = 1, chunk_crc32 = 0x55BC801D, chunk_data = [1, 2, 3]\<rparr>"
  have "chunk_crc32 ?c = CRC32_compute (chunk_data ?c)"
    using chunkData_crc [OF chunkData_example, of ?c] by simp
  then have "fromBytes ((toBytes ?c)[8 + 1 := 0xFF]) = Inl (CRC32Mismatch (chunk_index ?c))"
    by (intro fromBytes_payload_flip) simp_all
  then show ?thesis by (simp add: flipped_frame_example)
qed

lemma didUpdateValueFor_dataTransfer:
  "didUpdateValueFor mgr dataTransferCharUUID (Some frame)
     = mgr\<lparr>receivedChunks := receivedChunks mgr @ [frame],
           syncProgress := (syncProgress mgr)\<lparr>sp_chunksReceived := int (length (receivedChunks mgr)) + 1\<rparr>\<rparr>"
  by (simp add: didUpdateValueFor_def Let_def)

text \<open>
  Claim C7. \<^verbatim>\<open>Chunk.fromBytes\<close> and \<^verbatim>\<open>addChunk\<close> hold the two checks, and no
  function of the sources calls either of them: the central takes a frame notified on the
  Data Transfer characteristic as it comes. Take the one chunk of the message \<open>1, 2, 3\<close>
  as \<^verbatim>\<open>chunkData\<close> produces it and replace the second byte of its payload by
  \<open>0xFF\<close>. \<^verbatim>\<open>Chunk.fromBytes\<close> reports a CRC32 mismatch for this frame. Received by
  the central, the frame is appended to \<^verbatim>\<open>receivedChunks\<close> and counted; the state of
  the central stays what it was, with no error and no message aborted. The same holds
  for every frame, so also for one whose \<^verbatim>\<open>total\<close> contradicts the frames before it.
\<close>

theorem corrupted_frame_is_stored:
  "chunkData [1, 2, 3]
     = Inr [\<lparr>chunk_index = 0, chunk_total = 1, chunk_crc32 = 0x55BC801D, chunk_data = [1, 2, 3]\<rparr>]
   \<and> (toBytes \<lparr>chunk_index = 0, chunk_total = 1, chunk_crc32 = 0x55BC801D, chunk_data = [1, 2, 3]\<rparr>)
        [9 := 0xFF]
       = [0, 0, 1, 0, 0x1D, 0x80, 0xBC, 0x55, 1, 0xFF, 3]
   \<and> fromBytes [0, 0, 1, 0, 0x1D, 0x80, 0xBC, 0x55, 1, 0xFF, 3] = Inl (CRC32Mismatch 0)
   \<and> didUpdateValueFor receiving dataTransferCharUUID
        (Some [0, 0, 1, 0, 0x1D, 0x80, 0xBC, 0x55, 1, 0xFF, 3])
       = receiving\<lparr>receivedChunks := [[0, 0, 1, 0, 0x1D, 0x80, 0xBC, 0x55, 1, 0xFF, 3]],
                    syncProgress := (syncProgress receiving)\<lparr>sp_chunksReceived := 1\<rparr>\<rparr>
   \<and> didUpdateValueFor mgr dataTransferCharUUID (Some frame)
       = mgr\<lparr>receivedChunks := receivedChunks mgr @ [frame],
             syncProgress := (syncProgress mgr)\<lparr>sp_chunksReceived := int (length (receivedChunks mgr)) + 1\<rparr>\<rparr>
   \<and> ble_state (didUpdateValueFor mgr dataTransferCharUUID (Some frame)) = ble_state mgr"
proof -
  have "didUpdateValueFor receiving dataTransferCharUUID
          (Some [0, 0, 1, 0, 0x1D, 0x80, 0xBC, 0x55, 1, 0xFF, 3])
        = receiving\<lparr>receivedChunks := [[0, 0, 1, 0, 0x1D, 0x80, 0xBC, 0x55, 1, 0xFF, 3]],
                     syncProgress := (syncProgress receiving)\<lparr>sp_chunksReceived := 1\<rparr>\<rparr>"
    by (simp add: didUpdateValueFor_dataTransfer) (simp add: receiving_def)
  moreover have "ble_state (didUpdateValueFor mgr dataTransferCharUUID (Some frame)) = ble_state mgr"
    by (simp add: didUpdateValueFor_dataTransfer)
  ultimately show ?thesis
    using chunkData_example flipped_frame_example fromBytes_flipped_frame
      didUpdateValueFor_dataTransfer [of mgr frame]
    by (intro conjI)
qed

section \<open>AES-GCM framing\<close>

lemma length_flip_one_bit: "length (flip_one_bit j xs) = length xs"
  by (simp add: flip_one_bit_def)

lemma flip_one_bit_append_left:
  assumes "j < 8 * length xs"
  shows "flip_one_bit j (xs @ ys) = flip_one_bit j xs @ ys"
proof -
  have "j div 8 < length xs" using assms by presburger
  then show ?thesis
    unfolding flip_one_bit_def by (simp only: list_update_append nth_append if_True)
qed

lemma flip_one_bit_append_right:
  assumes "8 * length xs \<le> j"
  shows "flip_one_bit j (xs @ ys) = xs @ flip_one_bit (j - 8 * length xs) ys"
proof -
  define k where "k = j - 8 * length xs"
  have j: "j = k + length xs * 8" using assms by (simp add: k_def)
  have d: "j div 8 - length xs = k div 8" and m: "j mod 8 = k mod 8"
    and nl: "\<not> j div 8 < length xs"
    unfolding j by simp_all
  show ?thesis
    unfolding flip_one_bit_def k_def [symmetric]
    by (simp only: list_update_append nth_append nl if_False d m)
qed

lemma dropLast_append: "length tag = 16 \<Longrightarrow> dropLast 16 (ct @ tag) = ct"
  by (simp add: dropLast_def)

lemma suffix_append: "length tag = 16 \<Longrightarrow> suffix_bytes 16 (ct @ tag) = tag"
  by (simp add: suffix_bytes_def)

lemma one_bit_apartI: "j < 8 * length xs \<Longrightarrow> one_bit_apart xs (flip_one_bit j xs)"
  by (auto simp: one_bit_apart_def)

lemma contract_seal:
  assumes "AES_GCM_contract gcm" and "length key = 32" and "length nonce = 12"
  shows "\<exists>ciphertext tag.
           gcm_seal gcm plaintext key nonce = Inr (nonce, ciphertext, tag)
           \<and> length tag = 16
           \<and> gcm_open gcm (nonce, ciphertext, tag) key = Inr plaintext"
proof -
  from assms(1) [unfolded AES_GCM_contract_def]
  have "\<forall>plaintext key nonce. length key = 32 \<and> length nonce = 12 \<longrightarrow>
        (\<exists>ciphertext tag.
           gcm_seal gcm plaintext key nonce = Inr (nonce, ciphertext, tag)
           \<and> length tag = 16
           \<and> gcm_open gcm (nonce, ciphertext, tag) key = Inr plaintext)"
    by (rule conjunct1)
  with assms(2,3) show ?thesis by blast
qed

lemma contract_nonce:
  assumes "AES_GCM_contract gcm" and "length nonce = 12"
  shows "Nonce_data gcm nonce = Inr nonce"
proof -
  from assms(1) [unfolded AES_GCM_contract_def]
  have "\<forall>nonce. length nonce = 12 \<longrightarrow> Nonce_data gcm nonce = Inr nonce"
    by (elim conjE)
  with assms(2) show ?thesis by blast
qed

lemma contract_box:
  assumes "AES_GCM_contract gcm" and "length nonce = 12" and "length tag = 16"
  shows "SealedBox_init gcm nonce ciphertext tag = Inr (nonce, ciphertext, tag)"
proof -
  from assms(1) [unfolded AES_GCM_contract_def]
  have "\<forall>nonce ciphertext tag. length nonce = 12 \<and> length tag = 16 \<longrightarrow>
          SealedBox_init gcm nonce ciphertext tag = Inr (nonce, ciphertext, tag)"
    by (elim conjE)
  with assms(2,3) show ?thesis by blast
qed

lemma contract_tamper:
  assumes c: "AES_GCM_contract gcm"
    and s: "gcm_seal gcm plaintext key nonce = Inr (nonce, ct, tag)"
    and d: "one_bit_apart nonce nonce' \<and> ct' = ct \<and> tag' = tag
             \<or> nonce' = nonce \<and> one_bit_apart ct ct' \<and> tag' = tag
             \<or> nonce' = nonce \<and> ct' = ct \<and> one_bit_apart tag tag'"
  shows "gcm_open gcm (nonce', ct', tag') key = Inl (CryptoKit authenticationFailure)"
proof -
  from c [unfolded AES_GCM_contract_def]
  have "\<forall>plaintext key nonce ciphertext tag nonce' ciphertext' tag'.
          gcm_seal gcm plaintext key nonce = Inr (nonce, ciphertext, tag)
          \<and> (one_bit_apart nonce nonce' \<and> ciphertext' = ciphertext \<and> tag' = tag
             \<or> nonce' = nonce \<and> one_bit_apart ciphertext ciphertext' \<and> tag' = tag
             \<or> nonce' = nonce \<and> ciphertext' = ciphertext \<and> one_bit_apart tag tag')
          \<longrightarrow> gcm_open gcm (nonce', ciphertext', tag') key = Inl (CryptoKit authenticationFailure)"
    by (elim conjE)
  then have "gcm_seal gcm plaintext key nonce = Inr (nonce, ct, tag)
          \<and> (one_bit_apart nonce nonce' \<and> ct' = ct \<and> tag' = tag
             \<or> nonce' = nonce \<and> one_bit_apart ct ct' \<and> tag' = tag
             \<or> nonce' = nonce \<and> ct' = ct \<and> one_bit_apart tag tag')
          \<longrightarrow> gcm_open gcm (nonce', ct', tag') key = Inl (CryptoKit authenticationFailure)"
    by (elim allE)
  with s d show ?thesis by (elim impE) (rule conjI)
qed

lemma decrypt_sealed:
  assumes c: "AES_GCM_contract gcm" and n: "length nonce = 12" and t: "length tag = 16"
  shows "decrypt gcm (ct @ tag) nonce key = gcm_open gcm (nonce, ct, tag) key"
  using t by (simp add: decrypt_def dropLast_append suffix_append
      contract_nonce [OF c n] contract_box [OF c n t])


lemma xor_fold_append: "xor_fold (xs @ ys) = xor_fold xs XOR xor_fold ys"
  by (induction xs) (simp_all add: xor_fold_def xor.assoc)

lemma one_bit_nonzero: "push_bit (j mod 8) 1 \<noteq> (0 :: byte)"
proof
  assume "push_bit (j mod 8) 1 = (0 :: byte)"
  then have "bit (push_bit (j mod 8) 1 :: byte) (j mod 8) = bit (0 :: byte) (j mod 8)" by simp
  then show False by (simp add: bit_simps)
qed

lemma xor_fold_flip:
  assumes "j < 8 * length xs"
  shows "xor_fold (flip_one_bit j xs) = xor_fold xs XOR push_bit (j mod 8) 1"
proof -
  let ?i = "j div 8"
  have i: "?i < length xs" using assms by (simp add: less_mult_imp_div_less mult.commute)
  have xs: "xs = take ?i xs @ xs ! ?i # drop (Suc ?i) xs"
    using i by (simp add: id_take_nth_drop)
  have "flip_one_bit j xs = take ?i xs @ (xs ! ?i XOR push_bit (j mod 8) 1) # drop (Suc ?i) xs"
    using i by (simp add: flip_one_bit_def upd_conv_take_nth_drop)
  then have "xor_fold (flip_one_bit j xs)
      = xor_fold (take ?i xs) XOR ((xs ! ?i XOR push_bit (j mod 8) 1) XOR xor_fold (drop (Suc ?i) xs))"
    by (simp add: xor_fold_append) (simp add: xor_fold_def)
  also have "\<dots> = (xor_fold (take ?i xs) XOR (xs ! ?i XOR xor_fold (drop (Suc ?i) xs)))
                   XOR push_bit (j mod 8) 1"
    by (simp add: ac_simps)
  also have "xor_fold (take ?i xs) XOR (xs ! ?i XOR xor_fold (drop (Suc ?i) xs)) = xor_fold xs"
    by (subst (4) xs, simp add: xor_fold_append) (simp add: xor_fold_def)
  finally show ?thesis .
qed

lemma xor_fold_one_bit_apart:
  assumes "one_bit_apart xs ys"
  shows "xor_fold ys \<noteq> xor_fold xs" and "ys \<noteq> xs"
proof -
  from assms obtain j where j: "j < 8 * length xs" and ys: "ys = flip_one_bit j xs"
    by (auto simp: one_bit_apart_def)
  have "xor_fold xs XOR push_bit (j mod 8) 1 \<noteq> xor_fold xs XOR 0"
    unfolding xor_left_cancel by (rule one_bit_nonzero)
  then show "xor_fold ys \<noteq> xor_fold xs"
    using xor_fold_flip [OF j] ys by simp
  then show "ys \<noteq> xs" by auto
qed

lemma checksum_tag_nonce:
  "one_bit_apart nonce nonce' \<Longrightarrow> checksum_tag key nonce' ct \<noteq> checksum_tag key nonce ct"
  by (drule xor_fold_one_bit_apart(1))
     (simp add: checksum_tag_def xor_fold_append xor_left_cancel xor_right_cancel)

lemma checksum_tag_ciphertext:
  "one_bit_apart ct ct' \<Longrightarrow> checksum_tag key nonce ct' \<noteq> checksum_tag key nonce ct"
  by (drule xor_fold_one_bit_apart(1))
     (simp add: checksum_tag_def xor_fold_append xor_left_cancel xor_right_cancel)

lemma checksum_gcm_contract: "AES_GCM_contract checksum_gcm"
  unfolding AES_GCM_contract_def
proof (intro conjI allI impI)
  fix plaintext key nonce :: Data
  show "\<exists>ciphertext tag.
          gcm_seal checksum_gcm plaintext key nonce = Inr (nonce, ciphertext, tag) \<and>
          length tag = 16 \<and> gcm_open checksum_gcm (nonce, ciphertext, tag) key = Inr plaintext"
    by (simp add: checksum_gcm_def checksum_tag_def)
next
  fix nonce :: Data assume "length nonce = 12"
  then show "Nonce_data checksum_gcm nonce = Inr nonce" by (simp add: checksum_gcm_def)
next
  fix nonce ciphertext tag :: Data assume "length nonce = 12 \<and> length tag = 16"
  then show "SealedBox_init checksum_gcm nonce ciphertext tag = Inr (nonce, ciphertext, tag)"
    by (simp add: checksum_gcm_def)
next
  fix plaintext key nonce ciphertext tag nonce' ciphertext' tag' :: Data
  assume a: "gcm_seal checksum_gcm plaintext key nonce = Inr (nonce, ciphertext, tag) \<and>
       (one_bit_apart nonce nonce' \<and> ciphertext' = ciphertext \<and> tag' = tag \<or>
        nonce' = nonce \<and> one_bit_apart ciphertext ciphertext' \<and> tag' = tag \<or>
        nonce' = nonce \<and> ciphertext' = ciphertext \<and> one_bit_apart tag tag')"
  then have tag: "tag = checksum_tag key nonce ciphertext"
    by (auto simp: checksum_gcm_def)
  from a consider "one_bit_apart nonce nonce'" "ciphertext' = ciphertext" "tag' = tag"
    | "nonce' = nonce" "one_bit_apart ciphertext ciphertext'" "tag' = tag"
    | "nonce' = nonce" "ciphertext' = ciphertext" "one_bit_apart tag tag'"
    by blast
  then have "tag' \<noteq> checksum_tag key nonce' ciphertext'"
  proof cases
    case 1
    then show ?thesis using checksum_tag_nonce [of nonce nonce' key ciphertext] tag by simp
  next
    case 2
    then show ?thesis using checksum_tag_ciphertext [of ciphertext ciphertext' key nonce] tag by simp
  next
    case 3
    then show ?thesis using xor_fold_one_bit_apart(2) [of tag tag'] tag by simp
  qed
  then show "gcm_open checksum_gcm (nonce', ciphertext', tag') key = Inl (CryptoKit authenticationFailure)"
    by (simp add: checksum_gcm_def)
qed

text \<open>
  Claim C2. For every plaintext, every 256-bit key and every fresh 96-bit nonce,
  \<^verbatim>\<open>encrypt\<close> returns one contiguous buffer, the ciphertext followed by the 16-byte
  GCM tag (so the tag is its last 16 bytes), together with the 12-byte nonce;
  \<^verbatim>\<open>decrypt\<close> of that buffer under the same key and nonce returns the plaintext; and
  \<^verbatim>\<open>decrypt\<close> of the buffer with any one bit flipped (in the ciphertext or in the tag),
  or under the nonce with any one bit flipped, throws \<^verbatim>\<open>authenticationFailure\<close>. The
  statement is relative to the contract of \<^verbatim>\<open>AES.GCM\<close>, which is not part of the
  repository.
\<close>

theorem encrypt_decrypt_roundtrip:
  assumes c: "AES_GCM_contract gcm" and k: "length key = 32" and f: "length fresh = 12"
  shows "\<exists>buf nonce ciphertext tag.
           encrypt gcm fresh plaintext key = Inr (buf, nonce)
           \<and> nonce = fresh \<and> length nonce = 12
           \<and> gcm_seal gcm plaintext key fresh = Inr (fresh, ciphertext, tag)
           \<and> buf = ciphertext @ tag \<and> length tag = 16 \<and> suffix_bytes 16 buf = tag
           \<and> decrypt gcm buf nonce key = Inr plaintext
           \<and> (\<forall>j < 8 * length buf.
                 decrypt gcm (flip_one_bit j buf) nonce key = Inl (CryptoKit authenticationFailure))
           \<and> (\<forall>j < 8 * length nonce.
                 decrypt gcm buf (flip_one_bit j nonce) key = Inl (CryptoKit authenticationFailure))"
proof -
  from contract_seal [OF c k f, of plaintext] obtain ct tag where
    s: "gcm_seal gcm plaintext key fresh = Inr (fresh, ct, tag)" and
    t: "length tag = 16" and
    o: "gcm_open gcm (fresh, ct, tag) key = Inr plaintext"
    by blast
  have e: "encrypt gcm fresh plaintext key = Inr (ct @ tag, fresh)"
    using s by (simp add: encrypt_def)
  have d: "decrypt gcm (ct @ tag) fresh key = Inr plaintext"
    using decrypt_sealed [OF c f t] o by simp
  have b: "decrypt gcm (flip_one_bit j (ct @ tag)) fresh key = Inl (CryptoKit authenticationFailure)"
    if "j < 8 * length (ct @ tag)" for j
  proof (cases "j < 8 * length ct")
    case True
    then have "flip_one_bit j (ct @ tag) = flip_one_bit j ct @ tag" by (rule flip_one_bit_append_left)
    moreover have "gcm_open gcm (fresh, flip_one_bit j ct, tag) key = Inl (CryptoKit authenticationFailure)"
      using one_bit_apartI [OF True] by (intro contract_tamper [OF c s]) simp
    ultimately show ?thesis
      using decrypt_sealed [OF c f t, of "flip_one_bit j ct" key] by simp
  next
    case False
    then have le: "8 * length ct \<le> j" by simp
    let ?j = "j - 8 * length ct"
    have lt: "?j < 8 * length tag" using that le by simp
    have t': "length (flip_one_bit ?j tag) = 16" using t by (simp add: length_flip_one_bit)
    have "flip_one_bit j (ct @ tag) = ct @ flip_one_bit ?j tag" using le by (rule flip_one_bit_append_right)
    moreover have "gcm_open gcm (fresh, ct, flip_one_bit ?j tag) key = Inl (CryptoKit authenticationFailure)"
      using one_bit_apartI [OF lt] by (intro contract_tamper [OF c s]) simp
    ultimately show ?thesis
      using decrypt_sealed [OF c f t', of ct key] by simp
  qed
  have n: "decrypt gcm (ct @ tag) (flip_one_bit j fresh) key = Inl (CryptoKit authenticationFailure)"
    if "j < 8 * length fresh" for j
  proof -
    have f': "length (flip_one_bit j fresh) = 12" using f by (simp add: length_flip_one_bit)
    have "gcm_open gcm (flip_one_bit j fresh, ct, tag) key = Inl (CryptoKit authenticationFailure)"
      using one_bit_apartI [OF that] by (intro contract_tamper [OF c s]) simp
    then show ?thesis using decrypt_sealed [OF c f' t, of ct key] by simp
  qed
  have x: "suffix_bytes 16 (ct @ tag) = tag" using t by (rule suffix_append)
  show ?thesis
    apply (rule exI [of _ "ct @ tag"])
    apply (rule exI [of _ fresh])
    apply (rule exI [of _ ct])
    apply (rule exI [of _ tag])
    apply (intro conjI allI impI)
    apply (rule e refl f s t x d | erule b n)+
    done
qed

theorem encrypt_decrypt_roundtrip_witness:
  "AES_GCM_contract checksum_gcm
   \<and> length (replicate 32 (7 :: byte)) = 32
   \<and> length (replicate 12 (9 :: byte)) = 12
   \<and> (\<exists>buf nonce ciphertext tag.
           encrypt checksum_gcm (replicate 12 9) [0x68, 0x69] (replicate 32 7) = Inr (buf, nonce)
           \<and> nonce = replicate 12 9 \<and> length nonce = 12
           \<and> gcm_seal checksum_gcm [0x68, 0x69] (replicate 32 7) (replicate 12 9)
                 = Inr (replicate 12 9, ciphertext, tag)
           \<and> buf = ciphertext @ tag \<and> length tag = 16 \<and> suffix_bytes 16 buf = tag
           \<and> decrypt checksum_gcm buf nonce (replicate 32 7) = Inr [0x68, 0x69]
           \<and> (\<forall>j < 8 * length buf.
                 decrypt checksum_gcm (flip_one_bit j buf) nonce (replicate 32 7)
                   = Inl (CryptoKit authenticationFailure))
           \<and> (\<forall>j < 8 * length nonce.
                 decrypt checksum_gcm buf (flip_one_bit j nonce) (replicate 32 7)
                   = Inl (CryptoKit authenticationFailure)))"
proof -
  have k: "length (replicate 32 (7 :: byte)) = 32" and f: "length (replicate 12 (9 :: byte)) = 12"
    by simp_all
  from checksum_gcm_contract k f
    encrypt_decrypt_roundtrip [OF checksum_gcm_contract k f, of "[0x68, 0x69]"]
  show ?thesis by (intro conjI)
qed

section \<open>Argon2id parameters\<close>

text \<open>
  Claim C3. For every password and every salt, and whatever the Argon2 library computes,
  \<^verbatim>\<open>hashPassword\<close> (whose result is the encoded PHC string) and
  \<^verbatim>\<open>deriveEncryptionKey\<close> (whose result is the raw hash, used as the AES-256-GCM key)
  call \<^verbatim>\<open>Argon2Swift.hashPasswordBytes\<close> with type Argon2id, version 1.3, memory
  19456 KiB, 2 iterations, parallelism 1 and a 32-byte output, over the salt they are given.
\<close>

theorem argon2id_same_parameters:
  "hashPassword lib password auth_salt =
     map_sum id (encodedString lib)
       (hashPasswordBytes lib
          \<lparr>a2_password = utf8 password, a2_salt = auth_salt, a2_length = 32,
           a2_type = Argon2_id, a2_version = V13, a2_iterations = 2, a2_memory = 19456,
           a2_parallelism = 1\<rparr>)
   \<and> deriveEncryptionKey lib password encryption_salt =
     map_sum id (hashData lib)
       (hashPasswordBytes lib
          \<lparr>a2_password = utf8 password, a2_salt = encryption_salt, a2_length = 32,
           a2_type = Argon2_id, a2_version = V13, a2_iterations = 2, a2_memory = 19456,
           a2_parallelism = 1\<rparr>)"
  by (simp add: hashPassword_def deriveEncryptionKey_def hashLength_def timeCost_def
      memoryCost_def parallelism_def split: sum.splits)

section \<open>The record coders against the schema\<close>

lemma missing_User_keys:
  "missing_columns User_codingKeys users_columns = [''passwordHash'', ''encryptionSalt'']"
  by (simp add: missing_columns_def User_codingKeys_def users_columns_def)


lemma missing_VaultEntry_requiredKeys:
  "missing_columns VaultEntry_requiredKeys vault_entries_columns
     = [''dataBlob'', ''profileId'', ''createdAt'', ''updatedAt'', ''syncVersion'']"
  by (simp add: missing_columns_def VaultEntry_requiredKeys_def vault_entries_columns_def)

lemma decode_User_throws: "decode_User row = Inl (RowDecodingError ''passwordHash'')"
  by (simp add: decode_User_def missing_User_keys)

lemma decode_VaultEntry_throws: "decode_VaultEntry row = Inl (RowDecodingError ''dataBlob'')"
  by (simp add: decode_VaultEntry_def missing_VaultEntry_requiredKeys)

lemma fetchAll_throws: "rows \<noteq> [] \<Longrightarrow> fetchAll rows = Inl (RowDecodingError ''dataBlob'')"
  by (cases rows) (simp_all add: decode_VaultEntry_throws)




lemma getUser_cases:
  "getUser db username
     = (if \<exists>u \<in> set (users db). u_username u = username
        then Inl (RowDecodingError ''passwordHash'') else Inr None)"
proof (cases "find (\<lambda>u. u_username u = username) (users db)")
  case None
  then have "\<not> (\<exists>u \<in> set (users db). u_username u = username)"
    by (auto simp: find_None_iff)
  with None show ?thesis by (simp add: getUser_def)
next
  case (Some row)
  then have "\<exists>u \<in> set (users db). u_username u = username"
    by (auto simp: find_Some_iff)
  with Some show ?thesis by (simp add: getUser_def decode_User_throws)
qed

section \<open>Unlock attempts\<close>

lemma login_cases:
  "login lib fnd db auth username password
     = (if \<exists>u \<in> set (users db). u_username u = username
        then Inl (RowDecodingError ''passwordHash'') else Inl (Auth invalidCredentials))"
  by (simp add: login_def getUser_cases)

lemma login_outcome_state_independent:
  "outcome (login lib fnd db auth username password)
     = outcome (login lib fnd db auth' username password)"
  by (simp add: login_def outcome_def split: option.splits sum.splits)

lemma login_attempts_snoc:
  "fst (login_attempts lib fnd db auth (hist @ [(username, password)]))
     = fst (login_attempts lib fnd db auth hist)
         @ [outcome (login lib fnd db auth username password)]"
proof (induction hist arbitrary: auth)
  case Nil
  show ?case by (simp add: outcome_def split: sum.splits)
next
  case (Cons a hist)
  obtain u p where a: "a = (u, p)" by (cases a)
  show ?case
  proof (cases "login lib fnd db auth u p")
    case (Inl e)
    then show ?thesis using Cons [of auth] by (simp add: a split_beta)
  next
    case (Inr auth1)
    then show ?thesis
      using Cons [of auth1] login_outcome_state_independent [of lib fnd db auth1 username password auth]
      by (simp add: a split_beta)
  qed
qed

lemma login_attempts_replicate:
  assumes "login lib fnd db auth username password = Inl e"
  shows "login_attempts lib fnd db auth (replicate n (username, password)) = (replicate n (Inl e), auth)"
  using assms by (induction n) simp_all

text \<open>
  Claim C4. \<^verbatim>\<open>AuthService.login\<close> keeps no count of failures and no time of the last
  one, and \<^verbatim>\<open>AuthError\<close> has no case for a rate limit. After any sequence of attempts
  the next one has the outcome it would have had as the first. Six wrong attempts in a row
  for \<^verbatim>\<open>alice\<close> each end in the same error: \<^verbatim>\<open>invalidCredentials\<close> when the store
  has no row for that name, the decoding error of the user row when it has one. The sixth
  attempt is not refused for the five before it, and nothing makes a seventh wait.
\<close>

theorem sixth_attempt_not_rate_limited:
  "fst (login_attempts lib fnd db auth (hist @ [(username, password)]))
     = fst (login_attempts lib fnd db auth hist)
         @ [outcome (login lib fnd db auth username password)]
   \<and> login_attempts lib fnd \<lparr>users = [], vault_entries = []\<rparr> auth (replicate 6 (''alice'', ''guess''))
       = (replicate 6 (Inl (Auth invalidCredentials)), auth)
   \<and> login_attempts lib fnd example_db auth (replicate 6 (''alice'', ''guess''))
       = (replicate 6 (Inl (RowDecodingError ''passwordHash'')), auth)"
proof -
  have "login lib fnd \<lparr>users = [], vault_entries = []\<rparr> auth ''alice'' ''guess''
          = Inl (Auth invalidCredentials)"
    by (simp add: login_cases)
  then have 1: "login_attempts lib fnd \<lparr>users = [], vault_entries = []\<rparr> auth
                  (replicate 6 (''alice'', ''guess''))
                = (replicate 6 (Inl (Auth invalidCredentials)), auth)"
    by (rule login_attempts_replicate)
  have "login lib fnd example_db auth ''alice'' ''guess'' = Inl (RowDecodingError ''passwordHash'')"
    by (simp add: login_cases example_db_def alice_def)
  then have 2: "login_attempts lib fnd example_db auth (replicate 6 (''alice'', ''guess''))
                = (replicate 6 (Inl (RowDecodingError ''passwordHash'')), auth)"
    by (rule login_attempts_replicate)
  from login_attempts_snoc [of lib fnd db auth hist username password] 1 2
  show ?thesis by (intro conjI)
qed

section \<open>Registration\<close>





section \<open>Pairing\<close>

lemma submit_parse_failure:
  assumes "peerPublicKey orch = Some d" and "PublicKey_compactRepresentation ck d = Inl e"
  shows "submitPairingCode ck privateKey orch code = orch\<lparr>sync_state := error (PairingFailed e)\<rparr>"
  using assms by (simp add: submitPairingCode_def)

lemma submit_paired:
  assumes "peerPublicKey orch = Some d" and "PublicKey_compactRepresentation ck d = Inr peerKey"
    and "pairingChar orch" and "deriveSessionKey ck privateKey peerKey = Inr k"
  shows "submitPairingCode ck privateKey orch code
           = orch\<lparr>pairingWrites := pairingWrites orch @
                      [compressedRepresentation ck (publicKey ck privateKey)
                       @ computePairingHMAC ck code (compressedRepresentation ck (publicKey ck privateKey))],
                   sessionKey := Some k, sync_state := paired\<rparr>"
  using assms by (simp add: submitPairingCode_def writePairingData_def Let_def)

text \<open>
  Claim C6 on the code. Whenever \<^verbatim>\<open>P256.KeyAgreement.PublicKey(compactRepresentation:)\<close>
  accepts only 32-byte input, a peer public key of 33 bytes (the compressed form the
  claim describes) makes \<^verbatim>\<open>submitPairingCode\<close> end in the error state: nothing is
  written to the Pairing characteristic and no session key is derived.
\<close>

theorem compressed_peer_key_rejected:
  assumes "compact_form_is_32_bytes ck"
    and "peerPublicKey orch = Some peerPublicKeyData"
    and "length peerPublicKeyData = 33"
  shows "submitPairingCode ck privateKey orch code
           = orch\<lparr>sync_state := error (PairingFailed (CryptoKit incorrectParameterSize))\<rparr>"
proof -
  from assms(1,3)
  have "PublicKey_compactRepresentation ck peerPublicKeyData = Inl (CryptoKit incorrectParameterSize)"
    by (simp add: compact_form_is_32_bytes_def)
  with assms(2) show ?thesis by (rule submit_parse_failure)
qed


theorem compressed_peer_key_rejected_witness:
  "compact_form_is_32_bytes sized_p256
   \<and> peerPublicKey (ready_to_pair compressed_base_point) = Some compressed_base_point
   \<and> length compressed_base_point = 33
   \<and> submitPairingCode sized_p256 (replicate 32 1) (ready_to_pair compressed_base_point) ''123456''
       = (ready_to_pair compressed_base_point)
           \<lparr>sync_state := error (PairingFailed (CryptoKit incorrectParameterSize))\<rparr>"
proof -
  have 1: "compact_form_is_32_bytes sized_p256"
    by (simp add: compact_form_is_32_bytes_def sized_p256_def)
  have 2: "peerPublicKey (ready_to_pair compressed_base_point) = Some compressed_base_point"
    by (simp add: ready_to_pair_def)
  have 3: "length compressed_base_point = 33" by (simp add: compressed_base_point_def)
  from 1 2 3 compressed_peer_key_rejected [OF 1 2 3, of "replicate 32 1" "''123456''"]
  show ?thesis by (intro conjI)
qed

section \<open>Soft delete and the version counter\<close>









section \<open>Listing entries\<close>

lemma getActiveEntries_throws:
  assumes "\<exists>e \<in> set (vault_entries db). ve_profileId e = profileId \<and> ve_deletedAt e = None"
  shows "getActiveEntries db profileId = Inl (RowDecodingError ''dataBlob'')"
proof -
  from assms
  have "filter (\<lambda>e. ve_profileId e = profileId \<and> ve_deletedAt e = None) (vault_entries db) \<noteq> []"
    by (auto simp: filter_empty_conv)
  then show ?thesis by (simp add: getActiveEntries_def fetchAll_throws)
qed

lemma getActiveEntries_none:
  assumes "\<not> (\<exists>e \<in> set (vault_entries db). ve_profileId e = profileId \<and> ve_deletedAt e = None)"
  shows "getActiveEntries db profileId = Inr []"
proof -
  from assms
  have "filter (\<lambda>e. ve_profileId e = profileId \<and> ve_deletedAt e = None) (vault_entries db) = []"
    by (auto simp: filter_empty_conv)
  then show ?thesis by (simp add: getActiveEntries_def)
qed

lemma loadEntries_fetch_throws:
  assumes "auth_encryptionKey auth = Some key"
    and "\<exists>e \<in> set (vault_entries db). ve_profileId e = auth_activeProfileId auth \<and> ve_deletedAt e = None"
  shows "loadEntries gcm fnd db auth entries = (entries, [RowDecodingError ''dataBlob''])"
  using assms by (simp add: loadEntries_def getActiveEntries_throws)

text \<open>The closure of \<^verbatim>\<open>loadEntries\<close>, taken alone, on the rows it would be given.\<close>

lemma displayEntry_encrypted:
  assumes "ve_nonce entry \<noteq> []"
  shows "displayEntry gcm fnd key entry
           = (case decrypt gcm (ve_dataBlob entry) (ve_nonce entry) key of
                Inl e \<Rightarrow> None
              | Inr plaintext \<Rightarrow>
                  Some \<lparr>de_entry = entry,
                        de_data = (case JSONDecoder_decode fnd plaintext of
                                     Some d \<Rightarrow> d | None \<Rightarrow> VaultEntryData_init)\<rparr>)"
  using assms by (simp add: displayEntry_def)

lemma displayEntry_no_nonce:
  "displayEntry gcm fnd key (entry\<lparr>ve_nonce := []\<rparr>)
     = Some \<lparr>de_entry = entry\<lparr>ve_nonce := []\<rparr>,
             de_data = (case JSONDecoder_decode fnd (ve_dataBlob entry) of
                          Some d \<Rightarrow> d | None \<Rightarrow> VaultEntryData_init)\<rparr>"
  by (simp add: displayEntry_def)

lemma xor_fold_replicate_even: "xor_fold (replicate (2 * n) b) = 0"
  by (induction n) (simp_all add: xor_fold_def)

lemma xor_fold_example: "xor_fold (replicate 32 7 @ replicate 12 9 @ [0x7B, 0x7D]) = 6"
proof -
  have "xor_fold [0x7B, 0x7D] = 6" by (simp add: xor_fold_def)
  with xor_fold_replicate_even [of 16 7] xor_fold_replicate_even [of 6 9]
  show ?thesis by (simp add: xor_fold_append)
qed

lemma decrypt_row1:
  "decrypt checksum_gcm (ve_dataBlob row1) (ve_nonce row1) (replicate 32 7) = Inr [0x7B, 0x7D]"
proof -
  from xor_fold_example show ?thesis
    by (simp add: decrypt_def row1_def checksum_gcm_def dropLast_def suffix_bytes_def
        checksum_tag_def)
qed

lemma decrypt_row2:
  "decrypt checksum_gcm (ve_dataBlob row2) (ve_nonce row2) (replicate 32 7)
     = Inl (CryptoKit authenticationFailure)"
proof -
  from xor_fold_example show ?thesis
    by (simp add: decrypt_def row2_def checksum_gcm_def dropLast_def suffix_bytes_def
        checksum_tag_def)
qed

text \<open>
  Claim C9. The closure of \<^verbatim>\<open>loadEntries\<close> decrypts a row and drops it when
  \<^verbatim>\<open>decrypt\<close> throws, but it is never given a row: \<^verbatim>\<open>getActiveEntries\<close> throws
  as soon as the active profile has a row to list, because the record coder of
  \<^verbatim>\<open>VaultEntry\<close> looks for a column \<^verbatim>\<open>dataBlob\<close> where the table has
  \<^verbatim>\<open>data_blob\<close>. In the example database, under the session key, the first row
  decrypts to the bytes of \<^verbatim>\<open>{}\<close>, which the closure hands to the JSON decoder, and
  the second fails the tag check and is dropped by the closure. Listing that
  database in the unlocked session throws at the fetch: the \<^verbatim>\<open>catch\<close> prints the
  decoding error and \<^verbatim>\<open>entries\<close> keeps the value it had. The row that decrypts is
  not listed, and what is reported has nothing to do with how many rows fail to decrypt.
\<close>

theorem loadEntries_lists_no_decrypted_row:
  "auth_encryptionKey unlocked = Some (replicate 32 7)
   \<and> decrypt checksum_gcm (ve_dataBlob row1) (ve_nonce row1) (replicate 32 7) = Inr [0x7B, 0x7D]
   \<and> displayEntry checksum_gcm fnd (replicate 32 7) row1
       = Some \<lparr>de_entry = row1,
               de_data = (case JSONDecoder_decode fnd [0x7B, 0x7D] of
                            Some d \<Rightarrow> d | None \<Rightarrow> VaultEntryData_init)\<rparr>
   \<and> decrypt checksum_gcm (ve_dataBlob row2) (ve_nonce row2) (replicate 32 7)
       = Inl (CryptoKit authenticationFailure)
   \<and> displayEntry checksum_gcm fnd (replicate 32 7) row2 = None
   \<and> getActiveEntries example_db 1 = Inl (RowDecodingError ''dataBlob'')
   \<and> loadEntries gcm fnd example_db unlocked entries = (entries, [RowDecodingError ''dataBlob''])"
proof -
  have k: "auth_encryptionKey unlocked = Some (replicate 32 7)" by (simp add: unlocked_def)
  have p: "auth_activeProfileId unlocked = 1" by (simp add: unlocked_def)
  have n1: "ve_nonce row1 \<noteq> []" by (simp add: row1_def)
  have n2: "ve_nonce row2 \<noteq> []" by (simp add: row2_def)
  have d1: "displayEntry checksum_gcm fnd (replicate 32 7) row1
              = Some \<lparr>de_entry = row1,
                      de_data = (case JSONDecoder_decode fnd [0x7B, 0x7D] of
                                   Some d \<Rightarrow> d | None \<Rightarrow> VaultEntryData_init)\<rparr>"
    by (simp add: displayEntry_encrypted [OF n1] decrypt_row1)
  have d2: "displayEntry checksum_gcm fnd (replicate 32 7) row2 = None"
    by (simp add: displayEntry_encrypted [OF n2] decrypt_row2)
  have ex: "\<exists>e \<in> set (vault_entries example_db). ve_profileId e = 1 \<and> ve_deletedAt e = None"
    by (simp add: example_db_def row1_def)
  then have g: "getActiveEntries example_db 1 = Inl (RowDecodingError ''dataBlob'')"
    by (rule getActiveEntries_throws)
  from ex have l: "loadEntries gcm fnd example_db unlocked entries
                     = (entries, [RowDecodingError ''dataBlob''])"
    by (intro loadEntries_fetch_throws [OF k]) (simp add: p)
  from k decrypt_row1 d1 decrypt_row2 d2 g l show ?thesis by (intro conjI)
qed

text \<open>
  Claim C10. For a row whose nonce is empty the closure of \<^verbatim>\<open>loadEntries\<close> calls
  neither \<^verbatim>\<open>decrypt\<close> nor the key: its result is the row with its \<^verbatim>\<open>data_blob\<close>
  decoded as JSON (or the empty payload when that fails), never \<^verbatim>\<open>nil\<close>. The row
  is not returned all the same: the fetch before the closure throws on the row, the
  record coder of \<^verbatim>\<open>VaultEntry\<close> finding no column \<^verbatim>\<open>dataBlob\<close>, so listing
  a database whose one row has no nonce prints the decoding error and leaves
  \<^verbatim>\<open>entries\<close> as it was.
\<close>

theorem row_without_nonce_not_listed:
  "displayEntry gcm fnd key (entry\<lparr>ve_nonce := []\<rparr>)
     = Some \<lparr>de_entry = entry\<lparr>ve_nonce := []\<rparr>,
             de_data = (case JSONDecoder_decode fnd (ve_dataBlob entry) of
                          Some d \<Rightarrow> d | None \<Rightarrow> VaultEntryData_init)\<rparr>
   \<and> ve_nonce row3 = []
   \<and> displayEntry gcm fnd key row3
       = Some \<lparr>de_entry = row3,
               de_data = (case JSONDecoder_decode fnd [0x7B, 0x7D] of
                            Some d \<Rightarrow> d | None \<Rightarrow> VaultEntryData_init)\<rparr>
   \<and> getActiveEntries legacy_db 1 = Inl (RowDecodingError ''dataBlob'')
   \<and> loadEntries gcm fnd legacy_db unlocked entries = (entries, [RowDecodingError ''dataBlob''])"
proof -
  have k: "auth_encryptionKey unlocked = Some (replicate 32 7)" by (simp add: unlocked_def)
  have p: "auth_activeProfileId unlocked = 1" by (simp add: unlocked_def)
  have n: "ve_nonce row3 = []" by (simp add: row3_def)
  have b: "ve_dataBlob row3 = [0x7B, 0x7D]" by (simp add: row3_def utf8_def)
  have d: "displayEntry gcm fnd key row3
             = Some \<lparr>de_entry = row3,
                     de_data = (case JSONDecoder_decode fnd [0x7B, 0x7D] of
                                  Some d \<Rightarrow> d | None \<Rightarrow> VaultEntryData_init)\<rparr>"
    by (simp add: displayEntry_def n b)
  have ex: "\<exists>e \<in> set (vault_entries legacy_db). ve_profileId e = 1 \<and> ve_deletedAt e = None"
    by (simp add: legacy_db_def row3_def)
  then have g: "getActiveEntries legacy_db 1 = Inl (RowDecodingError ''dataBlob'')"
    by (rule getActiveEntries_throws)
  from ex have l: "loadEntries gcm fnd legacy_db unlocked entries
                     = (entries, [RowDecodingError ''dataBlob''])"
    by (intro loadEntries_fetch_throws [OF k]) (simp add: p)
  from displayEntry_no_nonce [of gcm fnd key entry] n d g l show ?thesis by (intro conjI)
qed

end
